theory Spec2Isabelle
  imports Complex_Main
begin

section \<open>The scalar type of the code: IEEE 754 binary64\<close>

text \<open>
  Every number in \<^verbatim>\<open>ChassisSpeeds.h\<close> and \<^verbatim>\<open>SwerveModuleState.h\<close> is a C++
  \<^verbatim>\<open>double\<close>. A double is modelled as a sign, an integer significand and an exponent:
  \<open>Finite s m e\<close> stands for \<open>(-1)^s * m * 2^e\<close>. The finite doubles are the triples with
  \<open>m < 2^53\<close>, \<open>-1074 \<le> e \<le> 971\<close>, and \<open>2^52 \<le> m\<close> unless \<open>e = -1074\<close> (the subnormal
  range, zero included); both zeros exist. All NaN payloads are one value.

  Each operator rounds its exact result once, to nearest with ties to even, as C++ does
  on IEEE 754 hardware in the default rounding mode when the compiler does not contract
  \<^verbatim>\<open>a * b + c\<close> into a fused multiply-add.
\<close>

datatype double = Finite bool nat int | Infinity bool | NaN

fun finite_double :: "double \<Rightarrow> bool" where
  "finite_double (Finite s m e) =
     (m < 2 ^ 53 \<and> - 1074 \<le> e \<and> e \<le> 971 \<and> (e = - 1074 \<or> 2 ^ 52 \<le> m))"
| "finite_double (Infinity s) = False"
| "finite_double NaN = False"

text \<open>The value of a finite double as a real number.\<close>

fun valof :: "double \<Rightarrow> real" where
  "valof (Finite s m e) = (if s then - 1 else 1) * real m * 2 powi e"
| "valof (Infinity s) = 0"
| "valof NaN = 0"

text \<open>The number of binary digits of a natural number.\<close>

fun bitlen :: "nat \<Rightarrow> nat" where
  "bitlen n = (if n = 0 then 0 else Suc (bitlen (n div 2)))"

declare bitlen.simps [simp del]

text \<open>
  Rounding to nearest, ties to even: \<open>round_nearest_even m k\<close> is \<open>m / 2^k\<close> rounded to
  an integer.
\<close>

definition round_nearest_even :: "nat \<Rightarrow> nat \<Rightarrow> nat" where
  "round_nearest_even m k =
     (if 2 ^ k < 2 * (m mod 2 ^ k) \<or> (2 * (m mod 2 ^ k) = 2 ^ k \<and> odd (m div 2 ^ k))
      then m div 2 ^ k + 1 else m div 2 ^ k)"

text \<open>
  \<open>pack s q e\<close> is the double of sign \<open>s\<close> and magnitude \<open>q * 2^e\<close>, for a significand
  \<open>q \<le> 2^53\<close> that rounding produced at exponent \<open>e\<close>: a carry into the 54th bit moves to
  the next exponent, and an exponent past 971 overflows to infinity.
\<close>

definition pack :: "bool \<Rightarrow> nat \<Rightarrow> int \<Rightarrow> double" where
  "pack s q e =
     (if q = 2 ^ 53
      then (if 971 < e + 1 then Infinity s else Finite s (2 ^ 52) (e + 1))
      else (if 971 < e then Infinity s else Finite s q e))"

text \<open>
  \<open>round_at s m e e'\<close> is the value \<open>(-1)^s * m * 2^e\<close> brought to the exponent \<open>e'\<close>:
  exactly when \<open>e' \<le> e\<close>, by rounding off the low \<open>e' - e\<close> bits otherwise.
\<close>

definition round_at :: "bool \<Rightarrow> nat \<Rightarrow> int \<Rightarrow> int \<Rightarrow> double" where
  "round_at s m e e' =
     (if e' \<le> e then pack s (m * 2 ^ nat (e - e')) e'
      else pack s (round_nearest_even m (nat (e' - e))) e')"

text \<open>
  \<open>round_double s m e\<close> is the double nearest to the exact value \<open>(-1)^s * m * 2^e\<close>:
  the exponent of the result keeps 53 significant bits, and is not below -1074.
  Sums and products of doubles are of this form, so every operation below computes its
  exact result in integers and rounds once.
\<close>

definition round_double :: "bool \<Rightarrow> nat \<Rightarrow> int \<Rightarrow> double" where
  "round_double s m e =
     (if m = 0 then Finite s 0 (- 1074)
      else round_at s m e (max (- 1074) (e + int (bitlen m) - 53)))"

text \<open>Multiplication: the sign is the exclusive or; infinity times zero is NaN.\<close>

fun dmul :: "double \<Rightarrow> double \<Rightarrow> double" where
  "dmul NaN y = NaN"
| "dmul x NaN = NaN"
| "dmul (Infinity s) (Infinity t) = Infinity (s \<noteq> t)"
| "dmul (Infinity s) (Finite t n f) = (if n = 0 then NaN else Infinity (s \<noteq> t))"
| "dmul (Finite s m e) (Infinity t) = (if m = 0 then NaN else Infinity (s \<noteq> t))"
| "dmul (Finite s m e) (Finite t n f) = round_double (s \<noteq> t) (m * n) (e + f)"

text \<open>The signed integer \<open>(-1)^s * m * 2^k\<close>.\<close>

definition scaled :: "bool \<Rightarrow> nat \<Rightarrow> nat \<Rightarrow> int" where
  "scaled s m k = (if s then - int (m * 2 ^ k) else int (m * 2 ^ k))"

text \<open>
  \<open>round_sum z c g\<close> is the double nearest to the exact sum \<open>c * 2^g\<close>; an exact zero
  sum has the sign \<open>z\<close> (negative only when both summands are negative zeros).
\<close>

definition round_sum :: "bool \<Rightarrow> int \<Rightarrow> int \<Rightarrow> double" where
  "round_sum z c g =
     (if c = 0 then Finite z 0 (- 1074) else round_double (c < 0) (nat \<bar>c\<bar>) g)"

text \<open>Addition: infinities of opposite sign add to NaN.\<close>

fun dadd :: "double \<Rightarrow> double \<Rightarrow> double" where
  "dadd NaN y = NaN"
| "dadd x NaN = NaN"
| "dadd (Infinity s) (Infinity t) = (if s = t then Infinity s else NaN)"
| "dadd (Infinity s) (Finite t n f) = Infinity s"
| "dadd (Finite s m e) (Infinity t) = Infinity t"
| "dadd (Finite s m e) (Finite t n f) =
     round_sum (s \<and> t)
       (scaled s m (nat (e - min e f)) + scaled t n (nat (f - min e f))) (min e f)"

fun dneg :: "double \<Rightarrow> double" where
  "dneg (Finite s m e) = Finite (\<not> s) m e"
| "dneg (Infinity s) = Infinity (\<not> s)"
| "dneg NaN = NaN"

text \<open>
  The operators \<^verbatim>\<open>+\<close>, \<^verbatim>\<open>-\<close> and \<^verbatim>\<open>*\<close> of \<^verbatim>\<open>double\<close>, and the literals \<^verbatim>\<open>0\<close> and \<^verbatim>\<open>1\<close>
  converted to \<^verbatim>\<open>double\<close>.
\<close>

instantiation double :: "{zero, one, plus, minus, uminus, times}"
begin

definition zero_double :: double where
  "zero_double = Finite False 0 (- 1074)"

definition one_double :: double where
  "one_double = Finite False (2 ^ 52) (- 52)"

definition plus_double :: "double \<Rightarrow> double \<Rightarrow> double" where
  "plus_double x y = dadd x y"

definition uminus_double :: "double \<Rightarrow> double" where
  "uminus_double x = dneg x"

definition minus_double :: "double \<Rightarrow> double \<Rightarrow> double" where
  "minus_double x y = dadd x (dneg y)"

definition times_double :: "double \<Rightarrow> double \<Rightarrow> double" where
  "times_double x y = dmul x y"

instance ..

end

text \<open>The comparison \<^verbatim>\<open>==\<close> of C++ on doubles: the two zeros are equal, NaN equals nothing.\<close>

fun double_eq :: "double \<Rightarrow> double \<Rightarrow> bool" where
  "double_eq (Finite s m e) (Finite t n f) = ((m = 0 \<and> n = 0) \<or> (s = t \<and> m = n \<and> e = f))"
| "double_eq (Infinity s) (Infinity t) = (s = t)"
| "double_eq x y = False"

section \<open>The data types\<close>

text \<open>
  Modelled from the spec: \<^verbatim>\<open>frc/geometry/Rotation2d.h\<close> is not among the sources. The
  spec treats the rotation type as a capability providing the cosine and the sine of an
  angle, and says that a default-constructed rotation is the zero (identity) rotation.
  \<open>Cos\<close> and \<open>Sin\<close> are what \<^verbatim>\<open>robotAngle.Cos()\<close> and \<^verbatim>\<open>robotAngle.Sin()\<close> return.
\<close>

record 'a Rotation2d =
  Cos :: 'a
  Sin :: 'a

definition Rotation2d_default :: "'a::{zero, one} Rotation2d" where
  "Rotation2d_default = \<lparr>Cos = 1, Sin = 0\<rparr>"

text \<open>
  \<^verbatim>\<open>struct ChassisSpeeds { double dx = 0; double dy = 0; double dtheta = 0; ... }\<close>.
  The scalar type is a parameter of the model: the code is the instance \<open>double\<close>, and a
  statement proved for every scalar type holds for the code's arithmetic in particular.
\<close>

record 'a ChassisSpeeds =
  dx :: 'a
  dy :: 'a
  dtheta :: 'a

definition ChassisSpeeds_default :: "'a::zero ChassisSpeeds" where
  "ChassisSpeeds_default = \<lparr>dx = 0, dy = 0, dtheta = 0\<rparr>"

text \<open>\<^verbatim>\<open>struct SwerveModuleState { double speed = 0; Rotation2d angle; }\<close>\<close>

record 'a SwerveModuleState =
  speed :: 'a
  angle :: "'a Rotation2d"

definition SwerveModuleState_default :: "'a::{zero, one} SwerveModuleState" where
  "SwerveModuleState_default = \<lparr>speed = 0, angle = Rotation2d_default\<rparr>"

section \<open>The field-to-robot transform\<close>

text \<open>
  \<^verbatim>\<open>return {vx * robotAngle.Cos() + vy * robotAngle.Sin(),
          -vx * robotAngle.Sin() + vy * robotAngle.Cos(), vtheta};\<close>
  Unary minus binds tighter than \<^verbatim>\<open>*\<close>, in C++ as in HOL.
\<close>

definition FromFieldRelativeSpeeds ::
  "'a::{plus, uminus, times} \<Rightarrow> 'a \<Rightarrow> 'a \<Rightarrow> 'a Rotation2d \<Rightarrow> 'a ChassisSpeeds" where
  "FromFieldRelativeSpeeds vx vy vtheta robotAngle =
     \<lparr>dx = vx * Cos robotAngle + vy * Sin robotAngle,
      dy = - vx * Sin robotAngle + vy * Cos robotAngle,
      dtheta = vtheta\<rparr>"

section \<open>Notions used in the statements\<close>

text \<open>
  A rotation value is well formed when its cosine and sine are finite doubles of
  magnitude at most 1 whose squares sum to 1 up to \<open>2^-50\<close>: what the cosine and the sine
  of an angle, or the coordinates of a normalised vector, are after rounding to double.
\<close>

definition well_formed :: "double Rotation2d \<Rightarrow> bool" where
  "well_formed r \<longleftrightarrow>
     finite_double (Cos r) \<and> finite_double (Sin r) \<and>
     \<bar>valof (Cos r)\<bar> \<le> 1 \<and> \<bar>valof (Sin r)\<bar> \<le> 1 \<and>
     \<bar>valof (Cos r) * valof (Cos r) + valof (Sin r) * valof (Sin r) - 1\<bar> \<le> 1 / 2 ^ 50"

text \<open>\<open>close_to x y tol\<close>: both doubles are finite and their values differ by at most \<open>tol\<close>.\<close>

definition close_to :: "double \<Rightarrow> double \<Rightarrow> real \<Rightarrow> bool" where
  "close_to x y tol \<longleftrightarrow> finite_double x \<and> finite_double y \<and> \<bar>valof x - valof y\<bar> \<le> tol"

text \<open>
  The rotation that \<^verbatim>\<open>Rotation2d(3.0, 4.0)\<close> stands for: its cosine and sine are 3/5 and
  4/5 rounded to double, \<^verbatim>\<open>0x1.3333333333333p-1\<close> and \<^verbatim>\<open>0x1.999999999999ap-1\<close>.
\<close>

definition rot_3_4 :: "double Rotation2d" where
  "rot_3_4 = \<lparr>Cos = Finite False 5404319552844595 (- 53),
              Sin = Finite False 7205759403792794 (- 53)\<rparr>"

text \<open>The double 3.0.\<close>

definition three :: double where
  "three = Finite False 6755399441055744 (- 51)"

section \<open>The arithmetic on standard cases\<close>

text \<open>
  The equations that evaluate the arithmetic on closed terms. Each case below is the
  result that IEEE 754 hardware returns for the same operands.
\<close>

lemmas double_eval = times_double_def plus_double_def minus_double_def uminus_double_def
  zero_double_def one_double_def round_sum_def round_double_def round_at_def pack_def
  round_nearest_even_def scaled_def bitlen.simps

text \<open>0.1 + 0.2 = 0.30000000000000004.\<close>

lemma ieee_sum_tenths:
  "dadd (Finite False 7205759403792794 (- 56))
     (Finite False 7205759403792794 (- 55))
   = Finite False 5404319552844596 (- 54)"
  by (simp add: double_eval)

text \<open>0.1 * 0.1 = 0.010000000000000002.\<close>

lemma ieee_product_tenths:
  "dmul (Finite False 7205759403792794 (- 56))
     (Finite False 7205759403792794 (- 56))
   = Finite False 5764607523034236 (- 59)"
  by (simp add: double_eval)

text \<open>2^53 + 1 = 2^53: a tie, rounded to the even significand.\<close>

lemma ieee_tie_to_even_down:
  "dadd (Finite False 4503599627370496 1)
     (Finite False 4503599627370496 (- 52))
   = Finite False 4503599627370496 1"
  by (simp add: double_eval)

text \<open>2^53 + 3 = 2^53 + 4.\<close>

lemma ieee_tie_to_even_up:
  "dadd (Finite False 4503599627370496 1)
     (Finite False 6755399441055744 (- 51))
   = Finite False 4503599627370498 1"
  by (simp add: double_eval)

text \<open>The largest double added to itself overflows to +infinity.\<close>

lemma ieee_overflow_sum:
  "dadd (Finite False 9007199254740991 971)
     (Finite False 9007199254740991 971)
   = Infinity False"
  by (simp add: double_eval)

text \<open>The largest double times 1 + 2^-52 overflows to +infinity.\<close>

lemma ieee_no_overflow:
  "dmul (Finite False 9007199254740991 971)
     (Finite False 4503599627370497 (- 52))
   = Infinity False"
  by (simp add: double_eval)

text \<open>Half the smallest subnormal is a tie and rounds to zero.\<close>

lemma ieee_underflow_tie:
  "dmul (Finite False 1 (- 1074))
     (Finite False 4503599627370496 (- 53))
   = Finite False 0 (- 1074)"
  by (simp add: double_eval)

text \<open>1.5 times the smallest subnormal rounds to twice the smallest subnormal.\<close>

lemma ieee_underflow_round:
  "dmul (Finite False 3 (- 1074))
     (Finite False 4503599627370496 (- 53))
   = Finite False 2 (- 1074)"
  by (simp add: double_eval)

text \<open>The smallest normal double times 1 - 2^-53 rounds back to the smallest normal double.\<close>

lemma ieee_subnormal_product:
  "dmul (Finite False 4503599627370496 (- 1074))
     (Finite False 9007199254740991 (- 53))
   = Finite False 4503599627370496 (- 1074)"
  by (simp add: double_eval)

text \<open>1 + (-1) = +0.\<close>

lemma ieee_cancel_to_plus_zero:
  "dadd (Finite False 4503599627370496 (- 52))
     (Finite True 4503599627370496 (- 52))
   = Finite False 0 (- 1074)"
  by (simp add: double_eval)

text \<open>(-0) + (-0) = -0.\<close>

lemma ieee_minus_zeros:
  "dadd (Finite True 0 (- 1074))
     (Finite True 0 (- 1074))
   = Finite True 0 (- 1074)"
  by (simp add: double_eval)

text \<open>Infinity * 0 is NaN.\<close>

lemma ieee_inf_times_zero:
  "dmul (Infinity False)
     (Finite False 0 (- 1074))
   = NaN"
  by (simp add: double_eval)

text \<open>Infinity + (-infinity) is NaN.\<close>

lemma ieee_inf_minus_inf:
  "dadd (Infinity False)
     (Infinity True)
   = NaN"
  by (simp add: double_eval)

section \<open>Representable values are rounded to themselves\<close>

lemma bitlen_0 [simp]: "bitlen 0 = 0"
  by (simp add: bitlen.simps)

lemma bitlen_pos: "0 < n \<Longrightarrow> bitlen n = Suc (bitlen (n div 2))"
  by (subst bitlen.simps) simp

lemma bitlen_bounds: "0 < n \<Longrightarrow> 2 ^ (bitlen n - 1) \<le> n \<and> n < 2 ^ bitlen n"
proof (induction n rule: bitlen.induct)
  case (1 n)
  show ?case
  proof (cases "n div 2 = 0")
    case True
    with 1(2) have "n = 1" by (simp add: div_eq_0_iff) 
    then show ?thesis by (simp add: bitlen_pos)
  next
    case False
    then have pos: "0 < n div 2" by simp
    from 1(1) 1(2) pos have ih: "2 ^ (bitlen (n div 2) - 1) \<le> n div 2 \<and> n div 2 < 2 ^ bitlen (n div 2)"
      by simp
    have b: "bitlen n = Suc (bitlen (n div 2))" using 1(2) by (rule bitlen_pos)
    have bp: "0 < bitlen (n div 2)" using pos by (simp add: bitlen_pos)
    then obtain j where j: "bitlen (n div 2) = Suc j" by (cases "bitlen (n div 2)") auto
    from ih j have "2 ^ j \<le> n div 2" "n div 2 < 2 ^ Suc j" by simp_all
    then have "2 * 2 ^ j \<le> n" "n < 2 * 2 ^ Suc j" by linarith+
    then show ?thesis by (simp add: b j)
  qed
qed

lemma bitlen_eqI: "2 ^ k \<le> n \<Longrightarrow> n < 2 ^ Suc k \<Longrightarrow> bitlen n = Suc k"
proof -
  assume lo: "2 ^ k \<le> n" and hi: "n < 2 ^ Suc k"
  have pos: "0 < n" using lo by (metis not_gr_zero not_less power_eq_0_iff zero_neq_numeral)
  from bitlen_bounds [OF pos] have b1: "2 ^ (bitlen n - 1) \<le> n" and b2: "n < 2 ^ bitlen n" by simp_all
  have "(2::nat) ^ k < 2 ^ bitlen n" using lo b2 by linarith
  then have "k < bitlen n" by (simp add: power_strict_increasing_iff)
  moreover have "(2::nat) ^ (bitlen n - 1) < 2 ^ Suc k" using b1 hi by linarith
  then have "bitlen n - 1 < Suc k" by (simp only: power_strict_increasing_iff rel_simps)
  ultimately show ?thesis by linarith
qed

lemma bitlen_le: "n < 2 ^ k \<Longrightarrow> bitlen n \<le> k"
proof (cases "n = 0")
  case True then show ?thesis by simp
next
  case False
  assume hi: "n < 2 ^ k"
  from False have pos: "0 < n" by simp
  from bitlen_bounds [OF pos] have b1: "2 ^ (bitlen n - 1) \<le> n" by simp
  have "(2::nat) ^ (bitlen n - 1) < 2 ^ k" using b1 hi by linarith
  then have "bitlen n - 1 < k" by (simp only: power_strict_increasing_iff rel_simps)
  then show ?thesis by linarith
qed

lemma bitlen_shift: "0 < m \<Longrightarrow> bitlen (m * 2 ^ k) = bitlen m + k"
proof -
  assume pos: "0 < m"
  from bitlen_bounds [OF pos] have b1: "2 ^ (bitlen m - 1) \<le> m" and b2: "m < 2 ^ bitlen m" by simp_all
  have bp: "0 < bitlen m" using pos by (simp add: bitlen_pos)
  then obtain j where j: "bitlen m = Suc j" by (cases "bitlen m") auto
  have "2 ^ (j + k) \<le> m * 2 ^ k" using b1 j by (simp add: power_add)
  moreover have "m * 2 ^ k < 2 ^ Suc (j + k)" using b2 j by (simp add: power_add)
  ultimately have "bitlen (m * 2 ^ k) = Suc (j + k)" by (rule bitlen_eqI)
  then show ?thesis by (simp add: j)
qed

lemma round_nearest_even_exact: "round_nearest_even (m * 2 ^ k) k = m"
  by (simp add: round_nearest_even_def)

lemma finite_bitlen:
  assumes "finite_double (Finite s m e)" "0 < m"
  shows "max (- 1074) (e + int (bitlen m) - 53) = e"
proof (cases "2 ^ 52 \<le> m")
  case True
  from assms have "m < 2 ^ Suc 52" by simp
  with True have "bitlen m = Suc 52" by (intro bitlen_eqI) simp_all
  with assms show ?thesis by simp
next
  case False
  then have "m < 2 ^ 52" by simp
  then have "bitlen m \<le> 52" by (rule bitlen_le)
  moreover from False assms have "e = - 1074" by simp
  ultimately show ?thesis by simp
qed

text \<open>A finite double, written with \<open>k\<close> more low zero bits, rounds to itself.\<close>

lemma round_double_exact:
  assumes fin: "finite_double (Finite s m e)" and pos: "0 < m"
  shows "round_double s (m * 2 ^ k) (e - int k) = Finite s m e"
proof -
  have e': "max (- 1074) (e - int k + int (bitlen (m * 2 ^ k)) - 53) = e"
    using finite_bitlen [OF fin pos] by (simp add: bitlen_shift [OF pos])
  have pk: "pack s m e = Finite s m e"
    using fin by (simp add: pack_def)
  have "round_at s (m * 2 ^ k) (e - int k) e = pack s m e"
  proof (cases "k = 0")
    case True then show ?thesis by (simp add: round_at_def)
  next
    case False
    then show ?thesis by (simp add: round_at_def round_nearest_even_exact)
  qed
  then show ?thesis using pos by (simp add: round_double_def e' pk)
qed

text \<open>Multiplying a finite double by 1 or by 0, and adding a zero to it.\<close>

lemma mul_one: "finite_double x \<Longrightarrow> x * 1 = x"
proof (cases x)
  case (Finite s m e)
  assume fin: "finite_double x"
  show ?thesis
  proof (cases "m = 0")
    case True
    with fin Finite show ?thesis
      by (auto simp add: times_double_def one_double_def round_double_def)
  next
    case False
    then have pos: "0 < m" by simp
    from round_double_exact [OF fin [unfolded Finite] pos, of 52]
    show ?thesis by (simp add: Finite times_double_def one_double_def)
  qed
qed simp_all

lemma mul_zero: "Finite s m e * 0 = Finite s 0 (- 1074)"
  by (simp add: times_double_def zero_double_def round_double_def)

lemma double_eq_refl: "finite_double x \<Longrightarrow> double_eq x x"
  by (cases x) simp_all

lemma round_sum_scaled:
  assumes "0 < m"
  shows "round_sum z (scaled s m k) g = round_double s (m * 2 ^ k) g"
proof -
  have pos: "0 < int (m * 2 ^ k)" using assms by simp
  show ?thesis
  proof (cases s)
    case True
    have "nat \<bar>- int (m * 2 ^ k)\<bar> = m * 2 ^ k" by (simp only: abs_minus_cancel abs_of_nat nat_int)
    then show ?thesis using pos True by (simp add: round_sum_def scaled_def del: of_nat_mult of_nat_power)
  next
    case False
    have "nat \<bar>int (m * 2 ^ k)\<bar> = m * 2 ^ k" by (simp only: abs_of_nat nat_int)
    then show ?thesis using pos False by (simp add: round_sum_def scaled_def del: of_nat_mult of_nat_power)
  qed
qed

lemma scaled_zero [simp]: "scaled s 0 k = 0"
  by (simp add: scaled_def)

lemma add_zero_right:
  assumes fin: "finite_double x"
  shows "double_eq (x + Finite t 0 (- 1074)) x"
proof (cases x)
  case (Finite s m e)
  from fin Finite have lo: "- 1074 \<le> e" by simp
  then have mn: "min e (- 1074) = - 1074" by simp
  show ?thesis
  proof (cases "m = 0")
    case True
    then show ?thesis by (simp add: Finite plus_double_def mn round_sum_def)
  next
    case False
    then have pos: "0 < m" by simp
    have ex: "e - int (nat (e + 1074)) = - 1074" using lo by simp
    have "round_double s (m * 2 ^ nat (e + 1074)) (e - int (nat (e + 1074))) = Finite s m e"
      using fin [unfolded Finite] pos by (rule round_double_exact)
    then have rd: "round_double s (m * 2 ^ nat (e + 1074)) (- 1074) = Finite s m e"
      by (simp only: ex)
    have "x + Finite t 0 (- 1074) = Finite s m e"
      by (simp add: Finite plus_double_def mn round_sum_scaled [OF pos] rd)
    then show ?thesis using fin Finite by (simp add: double_eq_refl)
  qed
next
  case (Infinity s) with fin show ?thesis by simp
next
  case NaN with fin show ?thesis by simp
qed

lemma add_zero_left:
  assumes fin: "finite_double x"
  shows "double_eq (Finite t 0 (- 1074) + x) x"
proof (cases x)
  case (Finite s m e)
  from fin Finite have lo: "- 1074 \<le> e" by simp
  then have mn: "min (- 1074) e = - 1074" by simp
  show ?thesis
  proof (cases "m = 0")
    case True
    then show ?thesis by (simp add: Finite plus_double_def mn round_sum_def)
  next
    case False
    then have pos: "0 < m" by simp
    have ex: "e - int (nat (e + 1074)) = - 1074" using lo by simp
    have "round_double s (m * 2 ^ nat (e + 1074)) (e - int (nat (e + 1074))) = Finite s m e"
      using fin [unfolded Finite] pos by (rule round_double_exact)
    then have rd: "round_double s (m * 2 ^ nat (e + 1074)) (- 1074) = Finite s m e"
      by (simp only: ex)
    have "Finite t 0 (- 1074) + x = Finite s m e"
      by (simp add: Finite plus_double_def mn round_sum_scaled [OF pos] rd)
    then show ?thesis using fin Finite by (simp add: double_eq_refl)
  qed
next
  case (Infinity s) with fin show ?thesis by simp
next
  case NaN with fin show ?thesis by simp
qed

lemma finite_one: "finite_double 1"
  by (simp add: one_double_def)

lemma valof_one: "valof 1 = 1"
  by (simp add: one_double_def)

lemma finite_three: "finite_double three"
  by (simp add: three_def)

lemma valof_three: "valof three = 3"
  by (simp add: three_def)

lemma from_1_1:
  "FromFieldRelativeSpeeds 1 1 0 rot_3_4 =
     \<lparr>dx = Finite False 6305039478318694 (- 52),
      dy = Finite True 7205759403792796 (- 55),
      dtheta = 0\<rparr>"
  by (simp add: rot_3_4_def FromFieldRelativeSpeeds_def double_eval)

section \<open>Properties that hold in every arithmetic\<close>

text \<open>
  C1. For all inputs and every rotation, the fields of the result are
  \<open>dx = vx * cos + vy * sin\<close>, \<open>dy = - vx * sin + vy * cos\<close> and \<open>dtheta = vtheta\<close>, the
  operations being those of the scalar type (for the code: of \<^verbatim>\<open>double\<close>).
\<close>

theorem FromFieldRelativeSpeeds_fields:
  "dx (FromFieldRelativeSpeeds vx vy vtheta robotAngle)
     = vx * Cos robotAngle + vy * Sin robotAngle \<and>
   dy (FromFieldRelativeSpeeds vx vy vtheta robotAngle)
     = - vx * Sin robotAngle + vy * Cos robotAngle \<and>
   dtheta (FromFieldRelativeSpeeds vx vy vtheta robotAngle) = vtheta"
  by (simp add: FromFieldRelativeSpeeds_def)

text \<open>
  C3. The \<open>dtheta\<close> field of the result is the input \<open>vtheta\<close>, whatever the heading: two
  calls that differ only in the rotation (and in \<open>vx\<close>, \<open>vy\<close>) return the same \<open>dtheta\<close>.
\<close>

theorem FromFieldRelativeSpeeds_dtheta:
  "dtheta (FromFieldRelativeSpeeds vx vy vtheta robotAngle) = vtheta \<and>
   dtheta (FromFieldRelativeSpeeds vx vy vtheta robotAngle)
     = dtheta (FromFieldRelativeSpeeds vx' vy' vtheta robotAngle')"
  by (simp add: FromFieldRelativeSpeeds_def)

text \<open>
  C7. A default-constructed ChassisSpeeds has \<open>dx = dy = dtheta = 0\<close>; a
  default-constructed SwerveModuleState has \<open>speed = 0\<close> and its angle is the zero
  rotation (cosine 1, sine 0).
\<close>

theorem default_construction:
  "dx ChassisSpeeds_default = 0 \<and> dy ChassisSpeeds_default = 0 \<and>
   dtheta ChassisSpeeds_default = 0 \<and>
   speed SwerveModuleState_default = 0 \<and>
   angle SwerveModuleState_default = Rotation2d_default \<and>
   Cos (angle SwerveModuleState_default) = 1 \<and>
   Sin (angle SwerveModuleState_default) = 0"
  by (simp add: ChassisSpeeds_default_def SwerveModuleState_default_def
      Rotation2d_default_def)

section \<open>Headings on the axes (C6, C4)\<close>

text \<open>
  C6. \<open>FromFieldRelativeSpeeds 1 0 0\<close> with a rotation of cosine 0 and sine 1 returns
  \<open>dx = 0\<close>, \<open>dy = -1\<close>, \<open>dtheta = 0\<close>, computed in double arithmetic.
\<close>

theorem quarter_turn:
  "FromFieldRelativeSpeeds (1::double) 0 0 \<lparr>Cos = 0, Sin = 1\<rparr>
     = \<lparr>dx = 0, dy = - 1, dtheta = 0\<rparr>"
  by (simp add: FromFieldRelativeSpeeds_def double_eval)

text \<open>
  C4, as stated, fails: the claim is for every \<open>vx\<close>, \<open>vy\<close>, and a double can be infinite.
  With \<open>vy = +\<infinity>\<close> and the zero heading, \<open>dx = 1 * 1 + \<infinity> * 0\<close> is NaN, not \<open>vx = 1\<close>.
  Among finite inputs the result is not always the same double either: for \<open>vx = -0\<close> and
  \<open>vy = 1\<close>, \<open>dx = (-0) * 1 + 1 * 0\<close> is \<open>+0\<close>.
\<close>

theorem identity_heading_counterexample:
  "dx (FromFieldRelativeSpeeds 1 (Infinity False) 0 \<lparr>Cos = 1, Sin = 0\<rparr>) = NaN \<and>
   \<not> double_eq (dx (FromFieldRelativeSpeeds 1 (Infinity False) 0 \<lparr>Cos = 1, Sin = 0\<rparr>)) 1 \<and>
   dx (FromFieldRelativeSpeeds (Finite True 0 (- 1074)) 1 0 \<lparr>Cos = 1, Sin = 0\<rparr>)
     = Finite False 0 (- 1074)"
  by (simp add: FromFieldRelativeSpeeds_def double_eval)

text \<open>
  C4 (amended). For all finite doubles \<open>vx\<close>, \<open>vy\<close> and every \<open>vtheta\<close>, the transform with
  the zero heading (cosine 1, sine 0) returns \<open>dx\<close> equal to \<open>vx\<close> and \<open>dy\<close> equal to \<open>vy\<close>
  under the comparison \<^verbatim>\<open>==\<close> of doubles, and \<open>dtheta = vtheta\<close>. (No rounding error
  occurs; only the sign of a zero can differ, which \<^verbatim>\<open>==\<close> does not see.)
\<close>

theorem identity_heading:
  assumes fx: "finite_double vx" and fy: "finite_double vy"
  shows "double_eq (dx (FromFieldRelativeSpeeds vx vy vtheta \<lparr>Cos = 1, Sin = 0\<rparr>)) vx \<and>
         double_eq (dy (FromFieldRelativeSpeeds vx vy vtheta \<lparr>Cos = 1, Sin = 0\<rparr>)) vy \<and>
         dtheta (FromFieldRelativeSpeeds vx vy vtheta \<lparr>Cos = 1, Sin = 0\<rparr>) = vtheta"
proof -
  obtain s m e where vx: "vx = Finite s m e" using fx by (cases vx) simp_all
  obtain t n f where vy: "vy = Finite t n f" using fy by (cases vy) simp_all
  have a: "vx * 1 + vy * 0 = vx + Finite t 0 (- 1074)"
    using fx by (simp add: mul_one) (simp add: vy mul_zero)
  have b: "- vx * 0 + vy * 1 = Finite (\<not> s) 0 (- 1074) + vy"
    using fy by (simp add: mul_one) (simp add: vx uminus_double_def mul_zero)
  show ?thesis
    using add_zero_right [OF fx, of t] add_zero_left [OF fy, of "\<not> s"]
    by (simp add: FromFieldRelativeSpeeds_def a b)
qed

theorem identity_heading_witness:
  "finite_double (Finite True 0 (- 1074)) \<and> finite_double 1 \<and>
   double_eq (dx (FromFieldRelativeSpeeds (Finite True 0 (- 1074)) 1 0 \<lparr>Cos = 1, Sin = 0\<rparr>))
     (Finite True 0 (- 1074)) \<and>
   double_eq (dy (FromFieldRelativeSpeeds (Finite True 0 (- 1074)) 1 0 \<lparr>Cos = 1, Sin = 0\<rparr>)) 1 \<and>
   dtheta (FromFieldRelativeSpeeds (Finite True 0 (- 1074)) (1::double) 0 \<lparr>Cos = 1, Sin = 0\<rparr>) = 0"
proof -
  have h1: "finite_double (Finite True 0 (- 1074))" by simp
  show ?thesis using h1 finite_one identity_heading [OF h1 finite_one, of 0] by simp
qed

section \<open>The rounding error of the operations\<close>

text \<open>
  The result of an operation on finite doubles whose exact result \<open>x\<close> is below \<open>2^1023\<close>
  in magnitude is a finite double within \<open>\<bar>x\<bar> / 2^53 + 2^-1075\<close> of \<open>x\<close>.
\<close>

lemma bitlen_gt0: "0 < m \<Longrightarrow> 0 < bitlen m"
  by (simp add: bitlen_pos)

text \<open>Rounding off \<open>k\<close> bits moves the value by at most half a unit of the kept digits.\<close>

lemma round_nearest_even_bounds:
  assumes "0 < k"
  shows "round_nearest_even m k * 2 ^ k \<le> m + 2 ^ (k - 1) \<and>
         m \<le> round_nearest_even m k * 2 ^ k + 2 ^ (k - 1) \<and>
         m div 2 ^ k \<le> round_nearest_even m k \<and>
         round_nearest_even m k \<le> m div 2 ^ k + 1"
proof -
  obtain j where k: "k = Suc j" using assms by (cases k) auto
  define P :: nat where "P = 2 ^ j"
  define d where "d = m div 2 ^ k"
  define r where "r = m mod 2 ^ k"
  have pk: "(2::nat) ^ k = 2 * P" by (simp add: k P_def)
  have pk1: "(2::nat) ^ (k - 1) = P" by (simp add: k P_def)
  have "m = d * 2 ^ k + r" unfolding d_def r_def by (rule div_mult_mod_eq [symmetric])
  then have m: "m = d * (2 * P) + r" by (simp only: pk)
  have "r < 2 ^ k" unfolding r_def by simp
  then have r: "r < 2 * P" by (simp only: pk)
  define D where "D = d * (2 * P)"
  have mD: "m = D + r" using m by (simp only: D_def)
  have up: "(d + 1) * (2 * P) = D + 2 * P" by (simp add: D_def algebra_simps)
  show ?thesis
  proof (cases "2 ^ k < 2 * r \<or> (2 * r = 2 ^ k \<and> odd d)")
    case True
    then have q: "round_nearest_even m k = d + 1"
      by (simp add: round_nearest_even_def d_def r_def)
    from True have "P \<le> r" by (auto simp add: pk)
    then have "D + 2 * P \<le> m + P \<and> m \<le> D + 2 * P + P" using mD r by linarith
    then show ?thesis
      unfolding q d_def [symmetric] unfolding pk pk1 up by simp
  next
    case False
    then have q: "round_nearest_even m k = d"
      by (simp add: round_nearest_even_def d_def r_def)
    from False have "r \<le> P" by (auto simp add: pk)
    then have "D \<le> m + P \<and> m \<le> D + P" using mD r by linarith
    then show ?thesis
      unfolding q d_def [symmetric] unfolding pk pk1 D_def by simp
  qed
qed

lemma two_powi_pos [simp]: "0 < (2::real) powi e"
  by (simp add: power_int_def)

lemma two_powi_add: "(2::real) powi (a + b) = 2 powi a * 2 powi b"
  by (simp add: power_int_add)

lemma two_powi_nat: "0 \<le> a \<Longrightarrow> (2::real) powi a = 2 ^ nat a"
  by (simp add: power_int_def)

lemma two_powi_le: "a \<le> b \<Longrightarrow> (2::real) powi a \<le> 2 powi b"
  by (rule power_int_increasing) simp_all

lemma two_powi_less_iff: "(2::real) powi a < 2 powi b \<longleftrightarrow> a < b"
proof
  assume "(2::real) powi a < 2 powi b"
  show "a < b"
  proof (rule ccontr)
    assume "\<not> a < b"
    then have "b \<le> a" by simp
    then have "(2::real) powi b \<le> 2 powi a" by (rule two_powi_le)
    with \<open>(2::real) powi a < 2 powi b\<close> show False by simp
  qed
next
  assume "a < b"
  then show "(2::real) powi a < 2 powi b" by (intro power_int_strict_increasing) simp_all
qed

text \<open>A natural number \<open>m\<close> of \<open>b\<close> binary digits lies in \<open>[2^(b-1), 2^b)\<close>, scaled by \<open>2^e\<close>.\<close>

lemma value_lower:
  assumes "0 < m"
  shows "2 powi (e + int (bitlen m) - 1) \<le> real m * 2 powi e"
proof -
  from bitlen_bounds [OF assms] have "2 ^ (bitlen m - 1) \<le> m" by simp
  then have "real (2 ^ (bitlen m - 1)) \<le> real m" by (simp only: of_nat_le_iff)
  then have "(2::real) ^ (bitlen m - 1) \<le> real m" by simp
  moreover have eq: "e + int (bitlen m) - 1 = e + int (bitlen m - 1)"
    using bitlen_gt0 [OF assms] by linarith
  have "(2::real) powi (e + int (bitlen m - 1)) = 2 powi e * 2 powi (int (bitlen m - 1))"
    by (rule two_powi_add)
  then have "(2::real) powi (e + int (bitlen m) - 1) = 2 powi e * 2 ^ (bitlen m - 1)"
    by (simp only: eq power_int_of_nat)
  ultimately show ?thesis by (simp add: mult.commute)
qed

lemma value_upper:
  assumes "0 < m"
  shows "real m * 2 powi e < 2 powi (e + int (bitlen m))"
proof -
  from bitlen_bounds [OF assms] have "m < 2 ^ bitlen m" by simp
  then have "real m < real (2 ^ bitlen m)" by (simp only: of_nat_less_iff)
  then have "real m < 2 ^ bitlen m" by simp
  then have "real m * 2 powi e < 2 ^ bitlen m * 2 powi e" by simp
  also have "\<dots> = 2 powi (e + int (bitlen m))"
    by (simp only: two_powi_add power_int_of_nat mult.commute)
  finally show ?thesis .
qed

text \<open>When the target exponent is not above the exponent of the value, nothing is lost.\<close>

lemma round_at_exact_case:
  assumes le: "e' \<le> e" and mhi: "m < 2 ^ b" and fit: "int b + (e - e') \<le> 53"
    and hi: "e' \<le> 971" and lo: "- 1074 \<le> e'"
    and norm: "e' = - 1074 \<or> (2 ^ (b - 1) \<le> m \<and> int b + (e - e') = 53 \<and> 0 < b)"
  shows "\<exists>q. round_at s m e e' = Finite s q e' \<and> finite_double (Finite s q e') \<and>
           real q * 2 powi e' = real m * 2 powi e"
proof -
  define j where "j = nat (e - e')"
  define q where "q = m * 2 ^ j"
  have j: "int j = e - e'" using le by (simp add: j_def)
  have bj: "b + j \<le> 53" using fit j by linarith
  have "q < 2 ^ b * 2 ^ j" using mhi by (simp add: q_def)
  also have "\<dots> = 2 ^ (b + j)" by (simp add: power_add)
  also have "\<dots> \<le> 2 ^ 53" using bj by (intro power_increasing) simp_all
  finally have q53: "q < 2 ^ 53" .
  have ra: "round_at s m e e' = Finite s q e'"
    using le hi q53 by (simp add: round_at_def pack_def q_def j_def)
  have nrm: "e' = - 1074 \<or> 2 ^ 52 \<le> q"
  proof (cases "e' = - 1074")
    case True then show ?thesis by simp
  next
    case False
    with norm have mlo: "2 ^ (b - 1) \<le> m" and eq: "int b + (e - e') = 53" and bp: "0 < b" by simp_all
    from eq j bp have "b - 1 + j = 52" by linarith
    then have "(2::nat) ^ 52 = 2 ^ (b - 1) * 2 ^ j" by (simp add: power_add [symmetric])
    also have "\<dots> \<le> q" using mlo by (simp add: q_def)
    finally show ?thesis by simp
  qed
  have fin: "finite_double (Finite s q e')" using q53 hi lo nrm by simp
  have "real q * 2 powi e' = real m * (2 powi (int j) * 2 powi e')"
    by (simp add: q_def)
  also have "2 powi (int j) * 2 powi e' = (2::real) powi e"
    using j by (simp add: two_powi_add [symmetric])
  finally have "real q * 2 powi e' = real m * 2 powi e" .
  with ra fin show ?thesis by blast
qed

text \<open>Otherwise the result is a finite double within half a unit in the last place.\<close>

lemma round_at_inexact_case:
  assumes lt: "e < e'" and mhi: "m < 2 ^ b" and fit: "int b \<le> e' - e + 53"
    and hi: "e' \<le> 970" and lo: "- 1074 \<le> e'"
    and norm: "e' = - 1074 \<or> (2 ^ (b - 1) \<le> m \<and> int b = e' - e + 53)"
  shows "\<exists>q e2. round_at s m e e' = Finite s q e2 \<and> finite_double (Finite s q e2) \<and>
           \<bar>real q * 2 powi e2 - real m * 2 powi e\<bar> \<le> 2 powi (e' - 1)"
proof -
  define k where "k = nat (e' - e)"
  define q0 where "q0 = round_nearest_even m k"
  have k: "int k = e' - e" and kpos: "0 < k" using lt by (simp_all add: k_def)
  from round_nearest_even_bounds [OF kpos, of m]
  have b1: "q0 * 2 ^ k \<le> m + 2 ^ (k - 1)" and b2: "m \<le> q0 * 2 ^ k + 2 ^ (k - 1)"
    and b3: "m div 2 ^ k \<le> q0" and b4: "q0 \<le> m div 2 ^ k + 1"
    by (simp_all add: q0_def)
  have bk: "b \<le> 53 + k" using fit k by linarith
  have "m < 2 ^ b" by (rule mhi)
  also have "(2::nat) ^ b \<le> 2 ^ (53 + k)" using bk by (intro power_increasing) simp_all
  also have "(2::nat) ^ (53 + k) = 2 ^ 53 * 2 ^ k" by (simp add: power_add)
  finally have "m div 2 ^ k < 2 ^ 53" by (rule less_mult_imp_div_less)
  with b4 have q0le: "q0 \<le> 2 ^ 53" by simp
  have ra: "round_at s m e e' = pack s q0 e'"
    using lt by (simp add: round_at_def q0_def k_def)
  \<comment> \<open>the error of the rounded significand\<close>
  have "real (q0 * 2 ^ k) \<le> real (m + 2 ^ (k - 1))" using b1 by (simp only: of_nat_le_iff)
  moreover have "real m \<le> real (q0 * 2 ^ k + 2 ^ (k - 1))" using b2 by (simp only: of_nat_le_iff)
  ultimately have err0: "\<bar>real q0 * 2 ^ k - real m\<bar> \<le> 2 ^ (k - 1)" by simp
  have e'e: "(2::real) powi e' = 2 ^ k * 2 powi e"
  proof -
    have "e' = int k + e" using k by simp
    then show ?thesis by (simp only: two_powi_add power_int_of_nat)
  qed
  have "real q0 * 2 powi e' - real m * 2 powi e = (real q0 * 2 ^ k - real m) * 2 powi e"
    by (simp add: e'e algebra_simps)
  then have "\<bar>real q0 * 2 powi e' - real m * 2 powi e\<bar> = \<bar>real q0 * 2 ^ k - real m\<bar> * 2 powi e"
    by (simp add: abs_mult)
  also have "\<dots> \<le> 2 ^ (k - 1) * 2 powi e"
    using err0 by (intro mult_right_mono) simp_all
  also have "\<dots> = 2 powi (e' - 1)"
  proof -
    have "e' - 1 = int (k - 1) + e" using k kpos by linarith
    then show ?thesis by (simp only: two_powi_add power_int_of_nat)
  qed
  finally have err: "\<bar>real q0 * 2 powi e' - real m * 2 powi e\<bar> \<le> 2 powi (e' - 1)" .
  show ?thesis
  proof (cases "q0 = 2 ^ 53")
    case True
    have pk: "pack s q0 e' = Finite s (2 ^ 52) (e' + 1)"
      using True hi by (simp add: pack_def)
    have fin: "finite_double (Finite s (2 ^ 52) (e' + 1))" using hi lo by simp
    have "real ((2::nat) ^ 52) * 2 powi (e' + 1) = real q0 * 2 powi e'"
      by (simp add: True two_powi_add)
    with err have "\<bar>real ((2::nat) ^ 52) * 2 powi (e' + 1) - real m * 2 powi e\<bar> \<le> 2 powi (e' - 1)"
      by (simp only:)
    with ra pk fin show ?thesis by metis
  next
    case False
    with q0le have q53: "q0 < 2 ^ 53" by simp
    have pk: "pack s q0 e' = Finite s q0 e'"
      using False hi by (simp add: pack_def)
    have nrm: "e' = - 1074 \<or> 2 ^ 52 \<le> q0"
    proof (cases "e' = - 1074")
      case True then show ?thesis by simp
    next
      case False
      with norm have mlo: "2 ^ (b - 1) \<le> m" and eq: "int b = e' - e + 53" by simp_all
      from eq k have "b - 1 = 52 + k" by linarith
      then have "(2::nat) ^ 52 * 2 ^ k \<le> m" using mlo by (simp add: power_add)
      then have "2 ^ 52 \<le> m div 2 ^ k" by (simp add: less_eq_div_iff_mult_less_eq)
      with b3 show ?thesis by simp
    qed
    have fin: "finite_double (Finite s q0 e')" using q53 hi lo nrm by simp
    from ra pk fin err show ?thesis by metis
  qed
qed

text \<open>Rounding a value below \<open>2^1023\<close>: the result is finite, with relative error at most
  \<open>2^-53\<close> in the normal range and absolute error at most \<open>2^-1075\<close> in the subnormal range.\<close>

lemma round_double_err:
  assumes pos: "0 < m" and small: "real m * 2 powi e < 2 powi 1023"
  shows "\<exists>q e2. round_double s m e = Finite s q e2 \<and> finite_double (Finite s q e2) \<and>
           \<bar>real q * 2 powi e2 - real m * 2 powi e\<bar>
             \<le> real m * 2 powi e / 2 ^ 53 + 2 powi (- 1075)"
proof -
  define b where "b = bitlen m"
  define e' where "e' = max (- 1074) (e + int b - 53)"
  define x where "x = real m * 2 powi e"
  have x0: "0 \<le> x" by (simp add: x_def)
  have rd: "round_double s m e = round_at s m e e'"
    using pos by (simp add: round_double_def e'_def b_def)
  have xlo: "2 powi (e + int b - 1) \<le> x"
    unfolding x_def b_def by (rule value_lower [OF pos])
  from bitlen_bounds [OF pos] have mlo: "2 ^ (b - 1) \<le> m" and mhi: "m < 2 ^ b"
    by (simp_all add: b_def)
  have bpos: "0 < b" unfolding b_def by (rule bitlen_gt0 [OF pos])
  have "(2::real) powi (e + int b - 1) < 2 powi 1023" using xlo small by (simp add: x_def)
  then have eb: "e + int b - 1 < 1023" by (simp only: two_powi_less_iff)
  have lo: "- 1074 \<le> e'" and ge: "e + int b - 53 \<le> e'" by (simp_all add: e'_def)
  have hi: "e' \<le> 970" using eb by (simp add: e'_def)
  have cases: "e' = - 1074 \<or> e' = e + int b - 53" by (auto simp add: e'_def max_def)
  show ?thesis
  proof (cases "e' \<le> e")
    case True
    have fit: "int b + (e - e') \<le> 53" using ge by linarith
    have norm: "e' = - 1074 \<or> (2 ^ (b - 1) \<le> m \<and> int b + (e - e') = 53 \<and> 0 < b)"
      using cases mlo bpos by auto
    have hi': "e' \<le> 971" using hi by simp
    from round_at_exact_case [OF True mhi fit hi' lo norm, of s]
    obtain q where "round_at s m e e' = Finite s q e'" "finite_double (Finite s q e')"
      "real q * 2 powi e' = real m * 2 powi e" by blast
    moreover have "0 \<le> real m * 2 powi e / 2 ^ 53 + 2 powi (- 1075)" by simp
    ultimately show ?thesis unfolding rd by (intro exI [of _ q] exI [of _ e']) simp
  next
    case False
    then have lt: "e < e'" by simp
    have fit: "int b \<le> e' - e + 53" using ge by linarith
    have norm: "e' = - 1074 \<or> (2 ^ (b - 1) \<le> m \<and> int b = e' - e + 53)"
      using cases mlo by auto
    from round_at_inexact_case [OF lt mhi fit hi lo norm, of s]
    obtain q e2 where r: "round_at s m e e' = Finite s q e2" "finite_double (Finite s q e2)"
      and err: "\<bar>real q * 2 powi e2 - real m * 2 powi e\<bar> \<le> 2 powi (e' - 1)" by blast
    have "(2::real) powi (e' - 1) \<le> x / 2 ^ 53 + 2 powi (- 1075)"
    proof (cases "e' = - 1074")
      case True
      then have "(2::real) powi (e' - 1) = 2 powi (- 1075)" by simp
      then show ?thesis using x0 by simp
    next
      case False
      with cases have "e' = e + int b - 53" by simp
      then have "e + int b - 1 = (e' - 1) + 53" by simp
      then have "(2::real) powi (e + int b - 1) = 2 powi (e' - 1) * 2 powi 53"
        by (simp only: two_powi_add)
      then have "(2::real) powi (e' - 1) * 2 ^ 53 \<le> x" using xlo by simp
      then have "(2::real) powi (e' - 1) \<le> x / 2 ^ 53" by (simp add: pos_le_divide_eq)
      then show ?thesis by (simp add: add_increasing2)
    qed
    with err have "\<bar>real q * 2 powi e2 - real m * 2 powi e\<bar> \<le> x / 2 ^ 53 + 2 powi (- 1075)"
      by linarith
    with r show ?thesis unfolding rd x_def by blast
  qed
qed

lemma valof_round_double:
  assumes small: "real m * 2 powi e < 2 powi 1023"
  shows "finite_double (round_double s m e) \<and>
         \<bar>valof (round_double s m e) - (if s then - 1 else 1) * (real m * 2 powi e)\<bar>
           \<le> real m * 2 powi e / 2 ^ 53 + 2 powi (- 1075)"
proof (cases "m = 0")
  case True
  then show ?thesis by (simp add: round_double_def)
next
  case False
  then have pos: "0 < m" by simp
  from round_double_err [OF pos small, of s]
  obtain q e2 where r: "round_double s m e = Finite s q e2" and fin: "finite_double (Finite s q e2)"
    and err: "\<bar>real q * 2 powi e2 - real m * 2 powi e\<bar>
                \<le> real m * 2 powi e / 2 ^ 53 + 2 powi (- 1075)" by blast
  have "valof (Finite s q e2) - (if s then - 1 else 1) * (real m * 2 powi e)
          = (if s then - 1 else 1) * (real q * 2 powi e2 - real m * 2 powi e)"
    by (simp add: algebra_simps)
  then have "\<bar>valof (Finite s q e2) - (if s then - 1 else 1) * (real m * 2 powi e)\<bar>
          = \<bar>real q * 2 powi e2 - real m * 2 powi e\<bar>"
    by (simp add: abs_mult)
  with err fin show ?thesis by (simp only: r)
qed

lemma neg_finite [simp]: "finite_double (- x) = finite_double x"
  by (cases x) (simp_all add: uminus_double_def)

lemma valof_neg [simp]: "valof (- x) = - valof x"
  by (cases x) (simp_all add: uminus_double_def)

text \<open>The error of one multiplication, one addition and one subtraction of doubles.\<close>

lemma mul_err:
  assumes fx: "finite_double x" and fy: "finite_double y"
    and small: "\<bar>valof x * valof y\<bar> < 2 powi 1023"
  shows "finite_double (x * y) \<and>
         \<bar>valof (x * y) - valof x * valof y\<bar> \<le> \<bar>valof x * valof y\<bar> / 2 ^ 53 + 2 powi (- 1075)"
proof -
  obtain s m e where x: "x = Finite s m e" using fx by (cases x) simp_all
  obtain t n f where y: "y = Finite t n f" using fy by (cases y) simp_all
  have mag: "real (m * n) * 2 powi (e + f) = \<bar>valof x * valof y\<bar>"
    by (simp add: x y abs_mult two_powi_add)
  have sgn: "(if s \<noteq> t then - 1 else 1) * (real (m * n) * 2 powi (e + f)) = valof x * valof y"
    by (simp add: x y two_powi_add)
  have small': "real (m * n) * 2 powi (e + f) < 2 powi 1023" using small by (simp only: mag)
  have xy: "x * y = round_double (s \<noteq> t) (m * n) (e + f)"
    by (simp add: x y times_double_def)
  from valof_round_double [OF small', of "s \<noteq> t"]
  have "finite_double (x * y) \<and>
        \<bar>valof (x * y) - valof x * valof y\<bar>
          \<le> real (m * n) * 2 powi (e + f) / 2 ^ 53 + 2 powi (- 1075)"
    by (simp only: sgn xy)
  then show ?thesis by (simp only: mag)
qed

lemma scaled_real:
  "0 \<le> e - g \<Longrightarrow> real_of_int (scaled s m (nat (e - g))) * 2 powi g
     = (if s then - 1 else 1) * real m * 2 powi e"
proof -
  assume "0 \<le> e - g"
  then have "e = int (nat (e - g)) + g" by simp
  then have "(2::real) powi e = 2 ^ nat (e - g) * 2 powi g"
    by (metis power_int_of_nat two_powi_add)
  then show ?thesis by (simp add: scaled_def)
qed

lemma add_err:
  assumes fx: "finite_double x" and fy: "finite_double y"
    and small: "\<bar>valof x + valof y\<bar> < 2 powi 1023"
  shows "finite_double (x + y) \<and>
         \<bar>valof (x + y) - (valof x + valof y)\<bar> \<le> \<bar>valof x + valof y\<bar> / 2 ^ 53 + 2 powi (- 1075)"
proof -
  obtain s m e where x: "x = Finite s m e" using fx by (cases x) simp_all
  obtain t n f where y: "y = Finite t n f" using fy by (cases y) simp_all
  define g where "g = min e f"
  define c where "c = scaled s m (nat (e - g)) + scaled t n (nat (f - g))"
  have ge: "0 \<le> e - g" and gf: "0 \<le> f - g" by (simp_all add: g_def)
  have sum: "real_of_int c * 2 powi g = valof x + valof y"
    using scaled_real [OF ge, of s m] scaled_real [OF gf, of t n]
    by (simp add: c_def x y algebra_simps)
  have xy: "x + y = round_sum (s \<and> t) c g"
    by (simp add: x y plus_double_def c_def g_def)
  show ?thesis
  proof (cases "c = 0")
    case True
    with sum have "valof x + valof y = 0" by simp
    then show ?thesis using True by (simp add: xy round_sum_def)
  next
    case False
    have rs: "round_sum (s \<and> t) c g = round_double (c < 0) (nat \<bar>c\<bar>) g"
      using False by (simp add: round_sum_def)
    have "real (nat \<bar>c\<bar>) = \<bar>real_of_int c\<bar>" by simp
    then have mag: "real (nat \<bar>c\<bar>) * 2 powi g = \<bar>valof x + valof y\<bar>"
      by (simp add: sum [symmetric] abs_mult)
    have "(if c < 0 then - 1 else 1) * real (nat \<bar>c\<bar>) = real_of_int c" by simp
    then have "(if c < 0 then - 1 else 1) * real (nat \<bar>c\<bar>) * 2 powi g = valof x + valof y"
      by (simp only: sum)
    then have sgn: "(if c < 0 then - 1 else 1) * (real (nat \<bar>c\<bar>) * 2 powi g) = valof x + valof y"
      by (simp only: mult.assoc)
    have small': "real (nat \<bar>c\<bar>) * 2 powi g < 2 powi 1023" using small by (simp only: mag)
    from valof_round_double [OF small', of "c < 0"]
    have "finite_double (x + y) \<and>
          \<bar>valof (x + y) - (valof x + valof y)\<bar>
            \<le> real (nat \<bar>c\<bar>) * 2 powi g / 2 ^ 53 + 2 powi (- 1075)"
      by (simp only: sgn xy rs)
    then show ?thesis by (simp only: mag)
  qed
qed

lemma sub_err:
  assumes fx: "finite_double x" and fy: "finite_double y"
    and small: "\<bar>valof x - valof y\<bar> < 2 powi 1023"
  shows "finite_double (x - y) \<and>
         \<bar>valof (x - y) - (valof x - valof y)\<bar> \<le> \<bar>valof x - valof y\<bar> / 2 ^ 53 + 2 powi (- 1075)"
proof -
  have eq: "x - y = x + (- y)" by (simp add: minus_double_def plus_double_def uminus_double_def)
  have fy': "finite_double (- y)" using fy by simp
  have small': "\<bar>valof x + valof (- y)\<bar> < 2 powi 1023" using small by simp
  from add_err [OF fx fy' small'] show ?thesis by (simp add: eq)
qed

lemma p53: "(2::real) ^ 53 = 9007199254740992" by simp

lemma abs_mult_le1: "\<bar>c\<bar> \<le> 1 \<Longrightarrow> \<bar>a * c\<bar> \<le> \<bar>a::real\<bar>"
proof -
  assume "\<bar>c\<bar> \<le> 1"
  then have "\<bar>a\<bar> * \<bar>c\<bar> \<le> \<bar>a\<bar> * 1" by (intro mult_left_mono) simp_all
  then show ?thesis by (simp add: abs_mult)
qed

lemma eta_bounds: "0 < (2::real) powi (- 1075)" "(2::real) powi (- 1075) \<le> 1"
proof -
  show "0 < (2::real) powi (- 1075)" by simp
  have "(2::real) powi (- 1075) \<le> 2 powi 0" by (rule two_powi_le) simp
  then show "(2::real) powi (- 1075) \<le> 1" by simp
qed

lemma big_bounds: "(2::real) powi 1023 = 4 * 2 powi 1021" "1 \<le> (2::real) powi 1021"
proof -
  have "(2::real) powi (2 + 1021) = 2 powi 2 * 2 powi 1021" by (rule two_powi_add)
  then show "(2::real) powi 1023 = 4 * 2 powi 1021" by simp
  have "(2::real) powi 0 \<le> 2 powi 1021" by (rule two_powi_le) simp
  then show "1 \<le> (2::real) powi 1021" by simp
qed

lemma dot_arith:
  fixes d1 d2 d3 x1 x2 s12 M \<eta> :: real
  assumes "d1 \<le> x1 / 2 ^ 53 + \<eta>" "d2 \<le> x2 / 2 ^ 53 + \<eta>" "d3 \<le> s12 / 2 ^ 53 + \<eta>"
    and "s12 \<le> M + M / 2 ^ 53 + 2 * \<eta>" "x1 + x2 \<le> M" "0 \<le> M" "0 \<le> \<eta>"
  shows "d3 + d1 + d2 \<le> 3 * M / 2 ^ 53 + 4 * \<eta>"
  using assms unfolding p53 by linarith

text \<open>The error of \<open>a * c + b * s\<close>, the shape of both fields of the transform: three roundings.\<close>

lemma dot_err_gen:
  assumes fa: "finite_double a" and fb: "finite_double b"
    and fc: "finite_double c" and fs: "finite_double s"
    and x12: "\<bar>valof a * valof c\<bar> + \<bar>valof b * valof s\<bar> \<le> M" and big: "M \<le> 2 powi 1021"
  shows "finite_double (a * c + b * s) \<and>
         \<bar>valof (a * c + b * s) - (valof a * valof c + valof b * valof s)\<bar>
           \<le> 3 * M / 2 ^ 53 + 4 * 2 powi (- 1075)"
proof -
  define \<eta> :: real where "\<eta> = 2 powi (- 1075)"
  define T :: real where "T = 2 powi 1021"
  note eta = eta_bounds [folded \<eta>_def]
  note bigT = big_bounds [folded T_def]
  have MT: "M \<le> T" using big by (simp only: T_def)
  have "\<bar>valof a * valof c\<bar> < 4 * T" using x12 MT bigT(2) by linarith
  then have sm1: "\<bar>valof a * valof c\<bar> < 2 powi 1023" by (simp only: bigT(1) [unfolded T_def] T_def)
  have "\<bar>valof b * valof s\<bar> < 4 * T" using x12 MT bigT(2) by linarith
  then have sm2: "\<bar>valof b * valof s\<bar> < 2 powi 1023" by (simp only: bigT(1) [unfolded T_def] T_def)
  from mul_err [OF fa fc sm1, folded \<eta>_def]
  have f1: "finite_double (a * c)"
    and e1: "\<bar>valof (a * c) - valof a * valof c\<bar> \<le> \<bar>valof a * valof c\<bar> / 2 ^ 53 + \<eta>"
    by simp_all
  from mul_err [OF fb fs sm2, folded \<eta>_def]
  have f2: "finite_double (b * s)"
    and e2: "\<bar>valof (b * s) - valof b * valof s\<bar> \<le> \<bar>valof b * valof s\<bar> / 2 ^ 53 + \<eta>"
    by simp_all
  have sum: "\<bar>valof (a * c) + valof (b * s)\<bar> \<le> M + M / 2 ^ 53 + 2 * \<eta>"
    using e1 e2 x12 unfolding p53 by linarith
  then have "\<bar>valof (a * c) + valof (b * s)\<bar> < 4 * T" using MT bigT(2) eta unfolding p53 by linarith
  then have sm3: "\<bar>valof (a * c) + valof (b * s)\<bar> < 2 powi 1023"
    by (simp only: bigT(1) [unfolded T_def] T_def)
  from add_err [OF f1 f2 sm3, folded \<eta>_def]
  have f3: "finite_double (a * c + b * s)"
    and e3: "\<bar>valof (a * c + b * s) - (valof (a * c) + valof (b * s))\<bar>
               \<le> \<bar>valof (a * c) + valof (b * s)\<bar> / 2 ^ 53 + \<eta>"
    by simp_all
  have M0: "0 \<le> M" using x12 by linarith
  have eta0: "0 \<le> \<eta>" using eta by simp
  have tri: "\<bar>valof (a * c + b * s) - (valof a * valof c + valof b * valof s)\<bar>
          \<le> \<bar>valof (a * c + b * s) - (valof (a * c) + valof (b * s))\<bar>
            + \<bar>valof (a * c) - valof a * valof c\<bar> + \<bar>valof (b * s) - valof b * valof s\<bar>"
    by linarith
  have "\<bar>valof (a * c + b * s) - (valof a * valof c + valof b * valof s)\<bar>
          \<le> 3 * M / 2 ^ 53 + 4 * \<eta>"
    by (rule order_trans [OF tri dot_arith [OF e1 e2 e3 sum x12 M0 eta0]])
  with f3 show ?thesis by (simp only: \<eta>_def)
qed

lemma dot_err:
  assumes fa: "finite_double a" and fb: "finite_double b"
    and fc: "finite_double c" and fs: "finite_double s"
    and c1: "\<bar>valof c\<bar> \<le> 1" and s1: "\<bar>valof s\<bar> \<le> 1"
    and M: "\<bar>valof a\<bar> + \<bar>valof b\<bar> \<le> M" and big: "M \<le> 2 powi 1021"
  shows "finite_double (a * c + b * s) \<and>
         \<bar>valof (a * c + b * s) - (valof a * valof c + valof b * valof s)\<bar>
           \<le> 3 * M / 2 ^ 53 + 4 * 2 powi (- 1075)"
proof -
  have x12: "\<bar>valof a * valof c\<bar> + \<bar>valof b * valof s\<bar> \<le> M"
    using abs_mult_le1 [OF c1, of "valof a"] abs_mult_le1 [OF s1, of "valof b"] M by linarith
  show ?thesis by (rule dot_err_gen [OF fa fb fc fs x12 big])
qed

lemma dneg_pack: "dneg (pack s q e) = pack (\<not> s) q e"
  by (simp add: pack_def)

lemma dneg_round_at: "dneg (round_at s m e e') = round_at (\<not> s) m e e'"
  by (simp add: round_at_def dneg_pack)

lemma dneg_round_double: "dneg (round_double s m e) = round_double (\<not> s) m e"
  by (simp add: round_double_def dneg_round_at)

text \<open>Negation is exact and commutes with multiplication, so \<open>x * c - y * s\<close> is \<open>x * c + (- y) * s\<close>.\<close>

lemma neg_mul: "- (x * y) = (- x) * (y::double)"
proof (cases x)
  case (Finite s m e)
  then show ?thesis
    by (cases y) (auto simp add: uminus_double_def times_double_def dneg_round_double)
next
  case (Infinity s)
  then show ?thesis by (cases y) (auto simp add: uminus_double_def times_double_def)
next
  case NaN
  then show ?thesis by (simp add: uminus_double_def times_double_def)
qed

lemma minus_as_plus: "x - y = x + (- y::double)"
  by (simp add: minus_double_def plus_double_def uminus_double_def)

text \<open>The transform in double arithmetic against the exact rotation of the real values.\<close>

lemma transform_err:
  assumes fx: "finite_double vx" and fy: "finite_double vy" and wf: "well_formed r"
    and M: "\<bar>valof vx\<bar> + \<bar>valof vy\<bar> \<le> M" and big: "M \<le> 2 powi 1021"
  shows "finite_double (dx (FromFieldRelativeSpeeds vx vy vtheta r)) \<and>
         finite_double (dy (FromFieldRelativeSpeeds vx vy vtheta r)) \<and>
         \<bar>valof (dx (FromFieldRelativeSpeeds vx vy vtheta r))
            - (valof vx * valof (Cos r) + valof vy * valof (Sin r))\<bar>
           \<le> 3 * M / 2 ^ 53 + 4 * 2 powi (- 1075) \<and>
         \<bar>valof (dy (FromFieldRelativeSpeeds vx vy vtheta r))
            - (- valof vx * valof (Sin r) + valof vy * valof (Cos r))\<bar>
           \<le> 3 * M / 2 ^ 53 + 4 * 2 powi (- 1075)"
proof -
  from wf have fc: "finite_double (Cos r)" and fs: "finite_double (Sin r)"
    and c1: "\<bar>valof (Cos r)\<bar> \<le> 1" and s1: "\<bar>valof (Sin r)\<bar> \<le> 1"
    by (simp_all add: well_formed_def)
  have fnx: "finite_double (- vx)" using fx by simp
  have M': "\<bar>valof (- vx)\<bar> + \<bar>valof vy\<bar> \<le> M" using M by simp
  from dot_err [OF fx fy fc fs c1 s1 M big] dot_err [OF fnx fy fs fc s1 c1 M' big]
  show ?thesis by (simp add: FromFieldRelativeSpeeds_def)
qed

section \<open>The round trip (C2)\<close>

text \<open>
  C2, as stated, fails in double arithmetic. With the rotation (0.6, 0.8), for which
  \<open>cos * cos + sin * sin\<close> evaluates to exactly 1, and \<open>vx = vy = 1\<close>, rotating the result
  forward gives \<open>dx * sin + dy * cos = 0.9999999999999999\<close>, not \<open>vy = 1\<close>.
\<close>

theorem roundtrip_counterexample:
  "Cos rot_3_4 * Cos rot_3_4 + Sin rot_3_4 * Sin rot_3_4 = 1 \<and>
   dx (FromFieldRelativeSpeeds 1 1 0 rot_3_4) * Sin rot_3_4
     + dy (FromFieldRelativeSpeeds 1 1 0 rot_3_4) * Cos rot_3_4
   = Finite False 9007199254740991 (- 53) \<and>
   \<not> double_eq (dx (FromFieldRelativeSpeeds 1 1 0 rot_3_4) * Sin rot_3_4
     + dy (FromFieldRelativeSpeeds 1 1 0 rot_3_4) * Cos rot_3_4) 1"
  by (simp add: from_1_1) (simp add: rot_3_4_def double_eval)

lemma well_formed_rot_3_4: "well_formed rot_3_4"
  by (simp add: well_formed_def rot_3_4_def)

lemma range_one:
  "2 powi (- 1000) \<le> \<bar>valof 1\<bar> + \<bar>valof 1\<bar>"
  "\<bar>valof 1\<bar> + \<bar>valof 1\<bar> \<le> 2 powi 1019"
  "\<bar>valof 1\<bar> + \<bar>valof 1\<bar> \<le> 2 powi 1021"
  "\<bar>valof three\<bar> * (\<bar>valof 1\<bar> + \<bar>valof 1\<bar>) \<le> 2 powi 1019"
  "\<bar>valof 1\<bar> + \<bar>valof 1\<bar> + \<bar>valof 1\<bar> + \<bar>valof 1\<bar> \<le> 2 powi 1019"
proof -
  have "(2::real) powi (- 1000) \<le> 2 powi 1" by (rule two_powi_le) simp
  then show "2 powi (- 1000) \<le> \<bar>valof 1\<bar> + \<bar>valof 1\<bar>" by (simp add: valof_one)
  have "(2::real) powi 1 \<le> 2 powi 1019" by (rule two_powi_le) simp
  then show "\<bar>valof 1\<bar> + \<bar>valof 1\<bar> \<le> 2 powi 1019" by (simp add: valof_one)
  have "(2::real) powi 1 \<le> 2 powi 1021" by (rule two_powi_le) simp
  then show "\<bar>valof 1\<bar> + \<bar>valof 1\<bar> \<le> 2 powi 1021" by (simp add: valof_one)
  have "(2::real) powi 3 \<le> 2 powi 1019" by (rule two_powi_le) simp
  then show "\<bar>valof three\<bar> * (\<bar>valof 1\<bar> + \<bar>valof 1\<bar>) \<le> 2 powi 1019"
    by (simp add: valof_one valof_three)
  have "(2::real) powi 2 \<le> 2 powi 1019" by (rule two_powi_le) simp
  then show "\<bar>valof 1\<bar> + \<bar>valof 1\<bar> + \<bar>valof 1\<bar> + \<bar>valof 1\<bar> \<le> 2 powi 1019"
    by (simp add: valof_one)
qed

lemma p50: "(2::real) ^ 50 = 1125899906842624" by simp
lemma p48: "(2::real) ^ 48 = 281474976710656" by simp

lemma eta16: "16 * (2::real) powi (- 1075) = 2 powi (- 1071)"
proof -
  have "(2::real) powi (4 + (- 1075)) = 2 powi 4 * 2 powi (- 1075)" by (rule two_powi_add)
  then show ?thesis by simp
qed

lemma big19: "(2::real) powi 1021 = 4 * 2 powi 1019" "8 \<le> (2::real) powi 1019"
proof -
  have "(2::real) powi (2 + 1019) = 2 powi 2 * 2 powi 1019" by (rule two_powi_add)
  then show "(2::real) powi 1021 = 4 * 2 powi 1019" by simp
  have "(2::real) powi 3 \<le> 2 powi 1019" by (rule two_powi_le) simp
  then show "8 \<le> (2::real) powi 1019" by simp
qed

lemma abs_dot_le:
  fixes a b c s :: real
  assumes "\<bar>c\<bar> \<le> 1" "\<bar>s\<bar> \<le> 1"
  shows "\<bar>a * c + b * s\<bar> \<le> \<bar>a\<bar> + \<bar>b\<bar>"
proof -
  have "\<bar>a * c + b * s\<bar> \<le> \<bar>a * c\<bar> + \<bar>b * s\<bar>" by (rule abs_triangle_ineq)
  with abs_mult_le1 [OF assms(1), of a] abs_mult_le1 [OF assms(2), of b] show ?thesis by linarith
qed

lemma err_le:
  fixes A \<eta> :: real
  assumes "0 \<le> A" "\<eta> \<le> 1"
  shows "3 * A / 2 ^ 53 + 4 * \<eta> \<le> A / 2 + 4"
  using assms unfolding p53 by linarith

lemma roundtrip_arith:
  fixes r0 t1 t2 t3 A E \<eta> :: real
  assumes "r0 \<le> 3 * (2 * A + 2 * E) / 2 ^ 53 + 4 * \<eta>"
    and "t1 \<le> E" "t2 \<le> E" "t3 \<le> A / 2 ^ 50"
    and "E = 3 * A / 2 ^ 53 + 4 * \<eta>"
    and "0 \<le> A" "0 \<le> \<eta>"
  shows "r0 + t1 + t2 + t3 \<le> A / 2 ^ 48 + 16 * \<eta>"
proof -
  have "3 * (2 * A + 2 * E) / 2 ^ 53 \<le> 7 * A / 2 ^ 53 + \<eta>"
    using assms(6,7) unfolding assms(5) by (simp add: field_simps)
  moreover have "E \<le> 3 * A / 2 ^ 53 + 4 * \<eta>" using assms(5) by simp
  ultimately show ?thesis using assms(1-4,6,7) unfolding p53 p50 p48 by linarith
qed

lemma stage2_bound:
  fixes A T E D1 D2 :: real
  assumes "D1 \<le> A + E" "D2 \<le> A + E" "E \<le> A / 2 + 4"
    and "A \<le> T" "8 \<le> T" "0 \<le> A"
  shows "D1 + D2 \<le> 2 * A + 2 * E \<and> 2 * A + 2 * E \<le> 4 * T"
proof
  show "D1 + D2 \<le> 2 * A + 2 * E" using assms by linarith
  show "2 * A + 2 * E \<le> 4 * T" using assms by linarith
qed

text \<open>
  C2 (amended). For all finite doubles \<open>vx\<close>, \<open>vy\<close> with \<open>\<bar>vx\<bar> + \<bar>vy\<bar> \<le> 2^1019\<close>, every
  \<open>vtheta\<close> and every well-formed rotation \<open>theta\<close>: rotating the \<open>(dx, dy)\<close> pair of the
  result forward by \<open>+theta\<close>, in double arithmetic, gives finite doubles that recover
  \<open>(vx, vy)\<close> within floating-point tolerance: each component is within
  \<open>(\<bar>vx\<bar> + \<bar>vy\<bar>) / 2^48 + 2^-1071\<close> of the original.
\<close>

theorem roundtrip_tolerance:
  assumes fx: "finite_double vx" and fy: "finite_double vy" and wf: "well_formed theta"
    and big: "\<bar>valof vx\<bar> + \<bar>valof vy\<bar> \<le> 2 powi 1019"
  shows "close_to (dx (FromFieldRelativeSpeeds vx vy vtheta theta) * Cos theta
                   - dy (FromFieldRelativeSpeeds vx vy vtheta theta) * Sin theta) vx
           ((\<bar>valof vx\<bar> + \<bar>valof vy\<bar>) / 2 ^ 48 + 2 powi (- 1071)) \<and>
         close_to (dx (FromFieldRelativeSpeeds vx vy vtheta theta) * Sin theta
                   + dy (FromFieldRelativeSpeeds vx vy vtheta theta) * Cos theta) vy
           ((\<bar>valof vx\<bar> + \<bar>valof vy\<bar>) / 2 ^ 48 + 2 powi (- 1071))"
proof -
  define X where "X = valof vx"
  define Y where "Y = valof vy"
  define C where "C = valof (Cos theta)"
  define S where "S = valof (Sin theta)"
  define A where "A = \<bar>X\<bar> + \<bar>Y\<bar>"
  define \<eta> :: real where "\<eta> = 2 powi (- 1075)"
  define T :: real where "T = 2 powi 1019"
  define E where "E = 3 * A / 2 ^ 53 + 4 * \<eta>"
  define p where "p = dx (FromFieldRelativeSpeeds vx vy vtheta theta)"
  define q where "q = dy (FromFieldRelativeSpeeds vx vy vtheta theta)"
  define L1 where "L1 = X * C + Y * S"
  define L2 where "L2 = - X * S + Y * C"
  note eta = eta_bounds [folded \<eta>_def]
  have eta0: "0 \<le> \<eta>" using eta by simp
  note bigT = big19 [folded T_def]
  from wf have fc: "finite_double (Cos theta)" and fs: "finite_double (Sin theta)"
    and c1: "\<bar>C\<bar> \<le> 1" and s1: "\<bar>S\<bar> \<le> 1"
    and unit: "\<bar>C * C + S * S - 1\<bar> \<le> 1 / 2 ^ 50"
    by (simp_all add: well_formed_def C_def S_def)
  have A0: "0 \<le> A" by (simp add: A_def)
  have AT: "A \<le> T" using big by (simp add: A_def X_def Y_def T_def)
  have A21: "A \<le> 2 powi 1021" using AT bigT(2) unfolding bigT(1) [unfolded T_def] T_def
    by linarith
  have AA: "\<bar>valof vx\<bar> + \<bar>valof vy\<bar> \<le> A" by (simp add: A_def X_def Y_def)
  from transform_err [OF fx fy wf AA A21, of vtheta, folded \<eta>_def, folded E_def]
  have fp: "finite_double p" and fq: "finite_double q"
    and ep: "\<bar>valof p - L1\<bar> \<le> E" and eq: "\<bar>valof q - L2\<bar> \<le> E"
    by (simp_all add: p_def q_def L1_def L2_def X_def Y_def C_def S_def)
  have Ele: "E \<le> A / 2 + 4" unfolding E_def by (rule err_le [OF A0 eta(2)])
  have l1: "\<bar>L1\<bar> \<le> A" unfolding L1_def A_def by (rule abs_dot_le [OF c1 s1])
  have "\<bar>L2\<bar> \<le> \<bar>- X\<bar> + \<bar>Y\<bar>" unfolding L2_def by (rule abs_dot_le [OF s1 c1])
  then have l2: "\<bar>L2\<bar> \<le> A" by (simp add: A_def)
  have dp: "\<bar>valof p\<bar> \<le> A + E" using ep l1 by linarith
  have dq: "\<bar>valof q\<bar> \<le> A + E" using eq l2 by linarith
  from stage2_bound [OF dp dq Ele AT bigT(2) A0]
  have M2: "\<bar>valof p\<bar> + \<bar>valof q\<bar> \<le> 2 * A + 2 * E"
    and "2 * A + 2 * E \<le> 4 * T" by simp_all
  then have M2big: "2 * A + 2 * E \<le> 2 powi 1021"
    by (simp only: bigT(1) [unfolded T_def] T_def)
  have fnq: "finite_double (- q)" using fq by simp
  have M2': "\<bar>valof p\<bar> + \<bar>valof (- q)\<bar> \<le> 2 * A + 2 * E"
    using M2 by simp
  \<comment> \<open>the two components of the forward rotation\<close>
  have rx_eq: "p * Cos theta - q * Sin theta = p * Cos theta + (- q) * Sin theta"
    by (simp only: minus_as_plus neg_mul)
  from dot_err [OF fp fnq fc fs c1 [unfolded C_def] s1 [unfolded S_def] M2' M2big, folded \<eta>_def]
  have frx: "finite_double (p * Cos theta - q * Sin theta)"
    and erx: "\<bar>valof (p * Cos theta - q * Sin theta) - (valof p * C - valof q * S)\<bar>
                \<le> 3 * (2 * A + 2 * E) / 2 ^ 53 + 4 * \<eta>"
    by (simp_all add: rx_eq C_def S_def)
  from dot_err [OF fp fq fs fc s1 [unfolded S_def] c1 [unfolded C_def] M2 M2big, folded \<eta>_def]
  have fry: "finite_double (p * Sin theta + q * Cos theta)"
    and ery: "\<bar>valof (p * Sin theta + q * Cos theta) - (valof p * S + valof q * C)\<bar>
                \<le> 3 * (2 * A + 2 * E) / 2 ^ 53 + 4 * \<eta>"
    by (simp_all add: C_def S_def)
  \<comment> \<open>the exact identities, with the errors of the first stage\<close>
  have idx: "valof p * C - valof q * S - X
               = (valof p - L1) * C + (- (valof q - L2)) * S + X * (C * C + S * S - 1)"
    by (simp add: L1_def L2_def algebra_simps)
  have idy: "valof p * S + valof q * C - Y
               = (valof p - L1) * S + (valof q - L2) * C + Y * (C * C + S * S - 1)"
    by (simp add: L1_def L2_def algebra_simps)
  have t1c: "\<bar>(valof p - L1) * C\<bar> \<le> E"
    using abs_mult_le1 [OF c1, of "valof p - L1"] ep by linarith
  have t1s: "\<bar>(valof p - L1) * S\<bar> \<le> E"
    using abs_mult_le1 [OF s1, of "valof p - L1"] ep by linarith
  have t2s: "\<bar>(- (valof q - L2)) * S\<bar> \<le> E"
    using abs_mult_le1 [OF s1, of "- (valof q - L2)"] eq by simp
  have t2c: "\<bar>(valof q - L2) * C\<bar> \<le> E"
    using abs_mult_le1 [OF c1, of "valof q - L2"] eq by linarith
  have t3x: "\<bar>X * (C * C + S * S - 1)\<bar> \<le> A / 2 ^ 50"
  proof -
    have "\<bar>X\<bar> * \<bar>C * C + S * S - 1\<bar> \<le> A * (1 / 2 ^ 50)"
      using unit by (intro mult_mono) (simp_all add: A_def)
    then show ?thesis by (simp add: abs_mult)
  qed
  have t3y: "\<bar>Y * (C * C + S * S - 1)\<bar> \<le> A / 2 ^ 50"
  proof -
    have "\<bar>Y\<bar> * \<bar>C * C + S * S - 1\<bar> \<le> A * (1 / 2 ^ 50)"
      using unit by (intro mult_mono) (simp_all add: A_def)
    then show ?thesis by (simp add: abs_mult)
  qed
  have "\<bar>valof (p * Cos theta - q * Sin theta) - X\<bar>
          \<le> \<bar>valof (p * Cos theta - q * Sin theta) - (valof p * C - valof q * S)\<bar>
            + \<bar>(valof p - L1) * C\<bar> + \<bar>(- (valof q - L2)) * S\<bar> + \<bar>X * (C * C + S * S - 1)\<bar>"
    using idx by linarith
  also have "\<dots> \<le> A / 2 ^ 48 + 16 * \<eta>"
    by (rule roundtrip_arith [OF erx t1c t2s t3x E_def A0 eta0])
  finally have rx: "\<bar>valof (p * Cos theta - q * Sin theta) - X\<bar> \<le> A / 2 ^ 48 + 2 powi (- 1071)"
    by (simp only: \<eta>_def eta16)
  have "\<bar>valof (p * Sin theta + q * Cos theta) - Y\<bar>
          \<le> \<bar>valof (p * Sin theta + q * Cos theta) - (valof p * S + valof q * C)\<bar>
            + \<bar>(valof p - L1) * S\<bar> + \<bar>(valof q - L2) * C\<bar> + \<bar>Y * (C * C + S * S - 1)\<bar>"
    using idy by linarith
  also have "\<dots> \<le> A / 2 ^ 48 + 16 * \<eta>"
    by (rule roundtrip_arith [OF ery t1s t2c t3y E_def A0 eta0])
  finally have ry: "\<bar>valof (p * Sin theta + q * Cos theta) - Y\<bar> \<le> A / 2 ^ 48 + 2 powi (- 1071)"
    by (simp only: \<eta>_def eta16)
  from frx fry rx ry fx fy show ?thesis
    unfolding close_to_def p_def q_def X_def Y_def A_def by blast
qed

theorem roundtrip_tolerance_witness:
  "finite_double 1 \<and> well_formed rot_3_4 \<and> \<bar>valof 1\<bar> + \<bar>valof 1\<bar> \<le> 2 powi 1019 \<and>
   close_to (dx (FromFieldRelativeSpeeds 1 1 0 rot_3_4) * Cos rot_3_4
             - dy (FromFieldRelativeSpeeds 1 1 0 rot_3_4) * Sin rot_3_4) 1
     ((\<bar>valof 1\<bar> + \<bar>valof 1\<bar>) / 2 ^ 48 + 2 powi (- 1071)) \<and>
   close_to (dx (FromFieldRelativeSpeeds 1 1 0 rot_3_4) * Sin rot_3_4
             + dy (FromFieldRelativeSpeeds 1 1 0 rot_3_4) * Cos rot_3_4) 1
     ((\<bar>valof 1\<bar> + \<bar>valof 1\<bar>) / 2 ^ 48 + 2 powi (- 1071))"
  using finite_one well_formed_rot_3_4 range_one(2)
    roundtrip_tolerance [OF finite_one finite_one well_formed_rot_3_4 range_one(2), of 0]
  by blast

section \<open>The norm of the velocity (C5)\<close>

text \<open>
  C5, as stated, fails in double arithmetic. The rotation (0.6, 0.8) satisfies
  \<open>cos * cos + sin * sin = 1\<close>, yet for \<open>vx = vy = 1\<close> the result has
  \<open>dx * dx + dy * dy = 1.9999999999999998\<close> while \<open>vx * vx + vy * vy = 2\<close>.
\<close>

theorem norm_counterexample:
  "Cos rot_3_4 * Cos rot_3_4 + Sin rot_3_4 * Sin rot_3_4 = 1 \<and>
   dx (FromFieldRelativeSpeeds 1 1 0 rot_3_4) * dx (FromFieldRelativeSpeeds 1 1 0 rot_3_4)
     + dy (FromFieldRelativeSpeeds 1 1 0 rot_3_4) * dy (FromFieldRelativeSpeeds 1 1 0 rot_3_4)
   = Finite False 9007199254740991 (- 52) \<and>
   (1::double) * 1 + 1 * 1 = Finite False 4503599627370496 (- 51)"
  by (simp add: from_1_1) (simp add: rot_3_4_def double_eval)

lemma p51: "(2::real) ^ 51 = 2251799813685248" by simp
lemma p47: "(2::real) ^ 47 = 140737488355328" by simp

lemma eta_small:
  assumes "2 powi (- 1000) \<le> A"
  shows "4 * (2::real) powi (- 1075) \<le> A / 2 ^ 53"
proof -
  have "(2::real) powi (- 1000) = 2 powi 75 * 2 powi (- 1075)"
    using two_powi_add [of 75 "- 1075"] by simp
  then have "2 ^ 75 * (2::real) powi (- 1075) \<le> A" using assms by simp
  then have "2 ^ 53 * (4 * (2::real) powi (- 1075)) \<le> A"
    using eta_bounds(1) by (simp add: algebra_simps) 
  then show ?thesis by (simp add: pos_le_divide_eq mult.commute)
qed

lemma sq_sum_le:
  fixes X Y :: real
  shows "(\<bar>X\<bar> + \<bar>Y\<bar>) * (\<bar>X\<bar> + \<bar>Y\<bar>) \<le> 2 * (X * X + Y * Y)"
proof -
  have "0 \<le> (\<bar>X\<bar> - \<bar>Y\<bar>) * (\<bar>X\<bar> - \<bar>Y\<bar>)" by simp
  then have "2 * (\<bar>X\<bar> * \<bar>Y\<bar>) \<le> \<bar>X\<bar> * \<bar>X\<bar> + \<bar>Y\<bar> * \<bar>Y\<bar>"
    by (simp add: algebra_simps)
  then show ?thesis by (simp add: algebra_simps)
qed

text \<open>The error of a square, from the error of its argument.\<close>

lemma sq_err:
  fixes D L E A :: real
  assumes d: "\<bar>D - L\<bar> \<le> E" and l: "\<bar>L\<bar> \<le> A" and E: "E \<le> A / 2 ^ 51" and A: "0 \<le> A"
  shows "\<bar>D * D - L * L\<bar> \<le> 3 * (A * A) / 2 ^ 51"
proof -
  have E0: "0 \<le> E" using d by linarith
  have "D * D - L * L = (D - L) * (2 * L + (D - L))" by (simp add: algebra_simps)
  then have "\<bar>D * D - L * L\<bar> = \<bar>D - L\<bar> * \<bar>2 * L + (D - L)\<bar>" by (simp add: abs_mult)
  also have "\<dots> \<le> E * (2 * A + E)"
    using d l E0 by (intro mult_mono) linarith+
  also have "\<dots> \<le> (A / 2 ^ 51) * (3 * A)"
    using E A E0 unfolding p51 by (intro mult_mono) linarith+
  finally show ?thesis by simp
qed

text \<open>
  C5 (amended). For all finite doubles \<open>vx\<close>, \<open>vy\<close> with
  \<open>2^-1000 \<le> \<bar>vx\<bar> + \<bar>vy\<bar> \<le> 2^1021\<close>, every \<open>vtheta\<close> and every well-formed rotation,
  the result has finite \<open>dx\<close>, \<open>dy\<close> whose values satisfy
  \<open>\<bar>dx^2 + dy^2 - (vx^2 + vy^2)\<bar> \<le> (vx^2 + vy^2) / 2^47\<close>: the magnitude of the
  translational velocity is preserved within a relative tolerance of \<open>2^-47\<close> (below
  \<open>10^-14\<close>; the squares are those of the real values).
\<close>

theorem norm_tolerance:
  assumes fx: "finite_double vx" and fy: "finite_double vy" and wf: "well_formed robotAngle"
    and lo: "2 powi (- 1000) \<le> \<bar>valof vx\<bar> + \<bar>valof vy\<bar>"
    and hi: "\<bar>valof vx\<bar> + \<bar>valof vy\<bar> \<le> 2 powi 1021"
  shows "finite_double (dx (FromFieldRelativeSpeeds vx vy vtheta robotAngle)) \<and>
         finite_double (dy (FromFieldRelativeSpeeds vx vy vtheta robotAngle)) \<and>
         \<bar>valof (dx (FromFieldRelativeSpeeds vx vy vtheta robotAngle))
              * valof (dx (FromFieldRelativeSpeeds vx vy vtheta robotAngle))
            + valof (dy (FromFieldRelativeSpeeds vx vy vtheta robotAngle))
              * valof (dy (FromFieldRelativeSpeeds vx vy vtheta robotAngle))
            - (valof vx * valof vx + valof vy * valof vy)\<bar>
           \<le> (valof vx * valof vx + valof vy * valof vy) / 2 ^ 47"
proof -
  define X where "X = valof vx"
  define Y where "Y = valof vy"
  define C where "C = valof (Cos robotAngle)"
  define S where "S = valof (Sin robotAngle)"
  define A where "A = \<bar>X\<bar> + \<bar>Y\<bar>"
  define N where "N = X * X + Y * Y"
  define E where "E = 3 * A / 2 ^ 53 + 4 * 2 powi (- 1075)"
  define p where "p = dx (FromFieldRelativeSpeeds vx vy vtheta robotAngle)"
  define q where "q = dy (FromFieldRelativeSpeeds vx vy vtheta robotAngle)"
  define L1 where "L1 = X * C + Y * S"
  define L2 where "L2 = - X * S + Y * C"
  from wf have c1: "\<bar>C\<bar> \<le> 1" and s1: "\<bar>S\<bar> \<le> 1"
    and unit: "\<bar>C * C + S * S - 1\<bar> \<le> 1 / 2 ^ 50"
    by (simp_all add: well_formed_def C_def S_def)
  have A0: "0 \<le> A" by (simp add: A_def)
  have N0: "0 \<le> N" by (simp add: N_def)
  have AA: "\<bar>valof vx\<bar> + \<bar>valof vy\<bar> \<le> A" by (simp add: A_def X_def Y_def)
  have A21: "A \<le> 2 powi 1021" using hi by (simp add: A_def X_def Y_def)
  have Alo: "2 powi (- 1000) \<le> A" using lo by (simp add: A_def X_def Y_def)
  from transform_err [OF fx fy wf AA A21, of vtheta, folded E_def]
  have fp: "finite_double p" and fq: "finite_double q"
    and ep: "\<bar>valof p - L1\<bar> \<le> E" and eq: "\<bar>valof q - L2\<bar> \<le> E"
    by (simp_all add: p_def q_def L1_def L2_def X_def Y_def C_def S_def)
  have Ele: "E \<le> A / 2 ^ 51"
    using eta_small [OF Alo] A0 unfolding E_def p53 p51 by linarith
  have l1: "\<bar>L1\<bar> \<le> A" unfolding L1_def A_def by (rule abs_dot_le [OF c1 s1])
  have "\<bar>L2\<bar> \<le> \<bar>- X\<bar> + \<bar>Y\<bar>" unfolding L2_def by (rule abs_dot_le [OF s1 c1])
  then have l2: "\<bar>L2\<bar> \<le> A" by (simp add: A_def)
  note sp = sq_err [OF ep l1 Ele A0]
  note sq = sq_err [OF eq l2 Ele A0]
  have A2: "A * A \<le> 2 * N" unfolding A_def N_def by (rule sq_sum_le)
  have id: "L1 * L1 + L2 * L2 - N = N * (C * C + S * S - 1)"
    by (simp add: L1_def L2_def N_def algebra_simps)
  have "\<bar>N * (C * C + S * S - 1)\<bar> = N * \<bar>C * C + S * S - 1\<bar>"
    using N0 by (simp add: abs_mult)
  also have "\<dots> \<le> N * (1 / 2 ^ 50)" using unit N0 by (intro mult_left_mono) simp_all
  finally have un: "\<bar>L1 * L1 + L2 * L2 - N\<bar> \<le> N / 2 ^ 50" by (simp add: id)
  have "\<bar>valof p * valof p + valof q * valof q - N\<bar>
          \<le> \<bar>valof p * valof p - L1 * L1\<bar> + \<bar>valof q * valof q - L2 * L2\<bar>
            + \<bar>L1 * L1 + L2 * L2 - N\<bar>"
    by linarith
  also have "\<dots> \<le> N / 2 ^ 47"
    using sp sq un A2 N0 unfolding p51 p50 p47 by linarith
  finally show ?thesis using fp fq
    unfolding p_def q_def N_def X_def Y_def by blast
qed

theorem norm_tolerance_witness:
  "finite_double 1 \<and> well_formed rot_3_4 \<and>
   2 powi (- 1000) \<le> \<bar>valof 1\<bar> + \<bar>valof 1\<bar> \<and> \<bar>valof 1\<bar> + \<bar>valof 1\<bar> \<le> 2 powi 1021 \<and>
   finite_double (dx (FromFieldRelativeSpeeds 1 1 0 rot_3_4)) \<and>
   finite_double (dy (FromFieldRelativeSpeeds 1 1 0 rot_3_4)) \<and>
   \<bar>valof (dx (FromFieldRelativeSpeeds 1 1 0 rot_3_4))
        * valof (dx (FromFieldRelativeSpeeds 1 1 0 rot_3_4))
      + valof (dy (FromFieldRelativeSpeeds 1 1 0 rot_3_4))
        * valof (dy (FromFieldRelativeSpeeds 1 1 0 rot_3_4))
      - (valof 1 * valof 1 + valof 1 * valof 1)\<bar>
     \<le> (valof 1 * valof 1 + valof 1 * valof 1) / 2 ^ 47"
  using finite_one well_formed_rot_3_4 range_one(1,3)
    norm_tolerance [OF finite_one finite_one well_formed_rot_3_4 range_one(1,3), of 0]
  by blast

section \<open>Composition of two transforms (C10)\<close>

text \<open>
  C10, as stated, fails in double arithmetic: with \<open>a = b\<close> the rotation (0.6, 0.8) and
  \<open>vx = vy = 1\<close>, transforming twice gives \<open>dx = 0.6799999999999999\<close>, and transforming
  once by \<open>a + b\<close> gives \<open>dx = 0.6799999999999998\<close>.
\<close>

theorem composition_counterexample:
  "dx (FromFieldRelativeSpeeds
        (dx (FromFieldRelativeSpeeds 1 1 0 rot_3_4))
        (dy (FromFieldRelativeSpeeds 1 1 0 rot_3_4))
        (dtheta (FromFieldRelativeSpeeds 1 1 0 rot_3_4)) rot_3_4)
     = Finite False 6124895493223874 (- 53) \<and>
   dx (FromFieldRelativeSpeeds 1 1 0
        \<lparr>Cos = Cos rot_3_4 * Cos rot_3_4 - Sin rot_3_4 * Sin rot_3_4,
         Sin = Sin rot_3_4 * Cos rot_3_4 + Cos rot_3_4 * Sin rot_3_4\<rparr>)
     = Finite False 6124895493223873 (- 53)"
  by (simp add: from_1_1) (simp add: rot_3_4_def FromFieldRelativeSpeeds_def double_eval)

lemma eta32: "32 * (2::real) powi (- 1075) = 2 powi (- 1070)"
proof -
  have "(2::real) powi (5 + (- 1075)) = 2 powi 5 * 2 powi (- 1075)" by (rule two_powi_add)
  then show ?thesis by simp
qed

lemma eta_tiny: "4 * (2::real) powi (- 1075) \<le> 1 / 2 ^ 53"
proof -
  have "(2::real) powi (- 1000) \<le> 2 powi 0" by (rule two_powi_le) simp
  then have "(2::real) powi (- 1000) \<le> 1" by simp
  from eta_small [OF this] show ?thesis by simp
qed

lemma abs_mult_le3:
  fixes x c :: real
  assumes "\<bar>c\<bar> \<le> 3"
  shows "\<bar>x * c\<bar> \<le> 3 * \<bar>x\<bar>"
proof -
  have "\<bar>x\<bar> * \<bar>c\<bar> \<le> \<bar>x\<bar> * 3" using assms by (intro mult_left_mono) simp_all
  then show ?thesis by (simp add: abs_mult)
qed

lemma abs_mult_eps:
  fixes x d :: real
  assumes "\<bar>d\<bar> \<le> 7 / 2 ^ 53"
  shows "\<bar>x * d\<bar> \<le> 7 * \<bar>x\<bar> / 2 ^ 53"
proof -
  have "\<bar>x\<bar> * \<bar>d\<bar> \<le> \<bar>x\<bar> * (7 / 2 ^ 53)" using assms by (intro mult_left_mono) simp_all
  then show ?thesis by (simp add: abs_mult)
qed

text \<open>The cosine and sine of \<open>a + b\<close>, computed in double arithmetic from well-formed \<open>a\<close>, \<open>b\<close>.\<close>

lemma sum_rotation_err:
  assumes wa: "well_formed a" and wb: "well_formed b"
  shows "finite_double (Cos a * Cos b - Sin a * Sin b) \<and>
         finite_double (Sin a * Cos b + Cos a * Sin b) \<and>
         \<bar>valof (Cos a * Cos b - Sin a * Sin b)
            - (valof (Cos a) * valof (Cos b) - valof (Sin a) * valof (Sin b))\<bar> \<le> 7 / 2 ^ 53 \<and>
         \<bar>valof (Sin a * Cos b + Cos a * Sin b)
            - (valof (Sin a) * valof (Cos b) + valof (Cos a) * valof (Sin b))\<bar> \<le> 7 / 2 ^ 53 \<and>
         \<bar>valof (Cos a * Cos b - Sin a * Sin b)\<bar> \<le> 3 \<and>
         \<bar>valof (Sin a * Cos b + Cos a * Sin b)\<bar> \<le> 3"
proof -
  from wa have fca: "finite_double (Cos a)" and fsa: "finite_double (Sin a)"
    and ca: "\<bar>valof (Cos a)\<bar> \<le> 1" and sa: "\<bar>valof (Sin a)\<bar> \<le> 1"
    by (simp_all add: well_formed_def)
  from wb have fcb: "finite_double (Cos b)" and fsb: "finite_double (Sin b)"
    and cb: "\<bar>valof (Cos b)\<bar> \<le> 1" and sb: "\<bar>valof (Sin b)\<bar> \<le> 1"
    by (simp_all add: well_formed_def)
  have "(2::real) powi 1 \<le> 2 powi 1021" by (rule two_powi_le) simp
  then have two: "(2::real) \<le> 2 powi 1021" by simp
  have fnsa: "finite_double (- Sin a)" using fsa by simp
  have m1: "\<bar>valof (Cos a)\<bar> + \<bar>valof (- Sin a)\<bar> \<le> 2" using ca sa by simp
  have m2: "\<bar>valof (Sin a)\<bar> + \<bar>valof (Cos a)\<bar> \<le> 2" using ca sa by simp
  have eq: "Cos a * Cos b - Sin a * Sin b = Cos a * Cos b + (- Sin a) * Sin b"
    by (simp only: minus_as_plus neg_mul)
  from dot_err [OF fca fnsa fcb fsb cb sb m1 two]
  have f1: "finite_double (Cos a * Cos b - Sin a * Sin b)"
    and e1: "\<bar>valof (Cos a * Cos b - Sin a * Sin b)
               - (valof (Cos a) * valof (Cos b) - valof (Sin a) * valof (Sin b))\<bar>
             \<le> 3 * 2 / 2 ^ 53 + 4 * 2 powi (- 1075)"
    by (simp_all add: eq)
  from dot_err [OF fsa fca fcb fsb cb sb m2 two]
  have f2: "finite_double (Sin a * Cos b + Cos a * Sin b)"
    and e2: "\<bar>valof (Sin a * Cos b + Cos a * Sin b)
               - (valof (Sin a) * valof (Cos b) + valof (Cos a) * valof (Sin b))\<bar>
             \<le> 3 * 2 / 2 ^ 53 + 4 * 2 powi (- 1075)"
    by simp_all
  have e1': "\<bar>valof (Cos a * Cos b - Sin a * Sin b)
               - (valof (Cos a) * valof (Cos b) - valof (Sin a) * valof (Sin b))\<bar> \<le> 7 / 2 ^ 53"
    using e1 eta_tiny unfolding p53 by linarith
  have e2': "\<bar>valof (Sin a * Cos b + Cos a * Sin b)
               - (valof (Sin a) * valof (Cos b) + valof (Cos a) * valof (Sin b))\<bar> \<le> 7 / 2 ^ 53"
    using e2 eta_tiny unfolding p53 by linarith
  have x1: "\<bar>valof (Cos a) * valof (Cos b) - valof (Sin a) * valof (Sin b)\<bar> \<le> 2"
    using abs_dot_le [OF cb sb, of "valof (Cos a)" "- valof (Sin a)"] ca sa by simp
  have x2: "\<bar>valof (Sin a) * valof (Cos b) + valof (Cos a) * valof (Sin b)\<bar> \<le> 2"
    using abs_dot_le [OF cb sb, of "valof (Sin a)" "valof (Cos a)"] ca sa by simp
  have b1: "\<bar>valof (Cos a * Cos b - Sin a * Sin b)\<bar> \<le> 3"
    using e1' x1 unfolding p53 by linarith
  have b2: "\<bar>valof (Sin a * Cos b + Cos a * Sin b)\<bar> \<le> 3"
    using e2' x2 unfolding p53 by linarith
  from f1 f2 e1' e2' b1 b2 show ?thesis by blast
qed

lemma composition_arith:
  fixes rl rr t1 t2 t3 t4 A E \<eta> X Y :: real
  assumes "rl \<le> 3 * (2 * A + 2 * E) / 2 ^ 53 + 4 * \<eta>"
    and "rr \<le> 3 * (3 * A) / 2 ^ 53 + 4 * \<eta>"
    and "t1 \<le> E" "t2 \<le> E" "t3 \<le> 7 * X / 2 ^ 53" "t4 \<le> 7 * Y / 2 ^ 53"
    and "X + Y = A"
    and "E = 3 * A / 2 ^ 53 + 4 * \<eta>"
    and "0 \<le> A" "0 \<le> \<eta>"
  shows "rl + rr + t1 + t2 + t3 + t4 \<le> A / 2 ^ 48 + 32 * \<eta>"
proof -
  have "3 * (2 * A + 2 * E) / 2 ^ 53 \<le> 7 * A / 2 ^ 53 + \<eta>"
    using assms(9,10) unfolding assms(8) by (simp add: field_simps)
  moreover have "E \<le> 3 * A / 2 ^ 53 + 4 * \<eta>" using assms(8) by simp
  moreover have "3 * (3 * A) / 2 ^ 53 = 9 * A / 2 ^ 53" by simp
  moreover have "7 * X / 2 ^ 53 + 7 * Y / 2 ^ 53 = 7 * A / 2 ^ 53"
    using assms(7) by (simp add: field_simps)
  ultimately show ?thesis using assms(1-6,9,10) unfolding p53 p48 by linarith
qed

lemma three_big:
  fixes A :: real
  assumes "A \<le> 2 powi 1019" "0 \<le> A"
  shows "3 * A \<le> 2 powi 1021"
  using assms unfolding big19(1) by linarith

text \<open>
  C10 (amended). For all finite doubles \<open>vx\<close>, \<open>vy\<close> with \<open>\<bar>vx\<bar> + \<bar>vy\<bar> \<le> 2^1019\<close>, every
  \<open>vtheta\<close> and well-formed rotations \<open>a\<close>, \<open>b\<close>: feeding the result of the transform
  with \<open>a\<close> back in with \<open>b\<close>, and transforming once with the rotation \<open>a + b\<close> (cosine
  \<open>cos a * cos b - sin a * sin b\<close>, sine \<open>sin a * cos b + cos a * sin b\<close>, computed in
  double arithmetic), give finite \<open>dx\<close> and \<open>dy\<close> that agree within
  \<open>(\<bar>vx\<bar> + \<bar>vy\<bar>) / 2^48 + 2^-1070\<close>, and the same \<open>dtheta\<close>.
\<close>

theorem composition_tolerance:
  assumes fx: "finite_double vx" and fy: "finite_double vy"
    and wa: "well_formed a" and wb: "well_formed b"
    and big: "\<bar>valof vx\<bar> + \<bar>valof vy\<bar> \<le> 2 powi 1019"
  shows "close_to
           (dx (FromFieldRelativeSpeeds
              (dx (FromFieldRelativeSpeeds vx vy vtheta a))
              (dy (FromFieldRelativeSpeeds vx vy vtheta a))
              (dtheta (FromFieldRelativeSpeeds vx vy vtheta a)) b))
           (dx (FromFieldRelativeSpeeds vx vy vtheta
              \<lparr>Cos = Cos a * Cos b - Sin a * Sin b, Sin = Sin a * Cos b + Cos a * Sin b\<rparr>))
           ((\<bar>valof vx\<bar> + \<bar>valof vy\<bar>) / 2 ^ 48 + 2 powi (- 1070)) \<and>
         close_to
           (dy (FromFieldRelativeSpeeds
              (dx (FromFieldRelativeSpeeds vx vy vtheta a))
              (dy (FromFieldRelativeSpeeds vx vy vtheta a))
              (dtheta (FromFieldRelativeSpeeds vx vy vtheta a)) b))
           (dy (FromFieldRelativeSpeeds vx vy vtheta
              \<lparr>Cos = Cos a * Cos b - Sin a * Sin b, Sin = Sin a * Cos b + Cos a * Sin b\<rparr>))
           ((\<bar>valof vx\<bar> + \<bar>valof vy\<bar>) / 2 ^ 48 + 2 powi (- 1070)) \<and>
         dtheta (FromFieldRelativeSpeeds
            (dx (FromFieldRelativeSpeeds vx vy vtheta a))
            (dy (FromFieldRelativeSpeeds vx vy vtheta a))
            (dtheta (FromFieldRelativeSpeeds vx vy vtheta a)) b)
          = dtheta (FromFieldRelativeSpeeds vx vy vtheta
            \<lparr>Cos = Cos a * Cos b - Sin a * Sin b, Sin = Sin a * Cos b + Cos a * Sin b\<rparr>)"
proof -
  define X where "X = valof vx"
  define Y where "Y = valof vy"
  define Ca where "Ca = valof (Cos a)"
  define Sa where "Sa = valof (Sin a)"
  define Cb where "Cb = valof (Cos b)"
  define Sb where "Sb = valof (Sin b)"
  define A where "A = \<bar>X\<bar> + \<bar>Y\<bar>"
  define \<eta> :: real where "\<eta> = 2 powi (- 1075)"
  define T :: real where "T = 2 powi 1019"
  define E where "E = 3 * A / 2 ^ 53 + 4 * \<eta>"
  define p where "p = dx (FromFieldRelativeSpeeds vx vy vtheta a)"
  define q where "q = dy (FromFieldRelativeSpeeds vx vy vtheta a)"
  define cab where "cab = Cos a * Cos b - Sin a * Sin b"
  define sab where "sab = Sin a * Cos b + Cos a * Sin b"
  define L1 where "L1 = X * Ca + Y * Sa"
  define L2 where "L2 = - X * Sa + Y * Ca"
  define lx where "lx = dx (FromFieldRelativeSpeeds p q vtheta b)"
  define ly where "ly = dy (FromFieldRelativeSpeeds p q vtheta b)"
  define rx where "rx = dx (FromFieldRelativeSpeeds vx vy vtheta \<lparr>Cos = cab, Sin = sab\<rparr>)"
  define ry where "ry = dy (FromFieldRelativeSpeeds vx vy vtheta \<lparr>Cos = cab, Sin = sab\<rparr>)"
  note eta = eta_bounds [folded \<eta>_def]
  have eta0: "0 \<le> \<eta>" using eta by simp
  note bigT = big19 [folded T_def]
  from wa have ca1: "\<bar>Ca\<bar> \<le> 1" and sa1: "\<bar>Sa\<bar> \<le> 1"
    by (simp_all add: well_formed_def Ca_def Sa_def)
  from wb have cb1: "\<bar>Cb\<bar> \<le> 1" and sb1: "\<bar>Sb\<bar> \<le> 1"
    by (simp_all add: well_formed_def Cb_def Sb_def)
  have A0: "0 \<le> A" by (simp add: A_def)
  have AT: "A \<le> T" using big by (simp add: A_def X_def Y_def T_def)
  have A21: "A \<le> 2 powi 1021" using AT bigT(2) unfolding bigT(1) [unfolded T_def] T_def
    by linarith
  have AA: "\<bar>valof vx\<bar> + \<bar>valof vy\<bar> \<le> A" by (simp add: A_def X_def Y_def)
  \<comment> \<open>first transform\<close>
  from transform_err [OF fx fy wa AA A21, of vtheta, folded \<eta>_def, folded E_def]
  have fp: "finite_double p" and fq: "finite_double q"
    and ep: "\<bar>valof p - L1\<bar> \<le> E" and eq: "\<bar>valof q - L2\<bar> \<le> E"
    by (simp_all add: p_def q_def L1_def L2_def X_def Y_def Ca_def Sa_def)
  have Ele: "E \<le> A / 2 + 4" unfolding E_def by (rule err_le [OF A0 eta(2)])
  have l1: "\<bar>L1\<bar> \<le> A" unfolding L1_def A_def by (rule abs_dot_le [OF ca1 sa1])
  have "\<bar>L2\<bar> \<le> \<bar>- X\<bar> + \<bar>Y\<bar>" unfolding L2_def by (rule abs_dot_le [OF sa1 ca1])
  then have l2: "\<bar>L2\<bar> \<le> A" by (simp add: A_def)
  have dp: "\<bar>valof p\<bar> \<le> A + E" using ep l1 by linarith
  have dq: "\<bar>valof q\<bar> \<le> A + E" using eq l2 by linarith
  from stage2_bound [OF dp dq Ele AT bigT(2) A0]
  have M2: "\<bar>valof p\<bar> + \<bar>valof q\<bar> \<le> 2 * A + 2 * E"
    and "2 * A + 2 * E \<le> 4 * T" by simp_all
  then have M2big: "2 * A + 2 * E \<le> 2 powi 1021"
    by (simp only: bigT(1) [unfolded T_def] T_def)
  \<comment> \<open>second transform\<close>
  from transform_err [OF fp fq wb M2 M2big, of vtheta, folded \<eta>_def]
  have flx: "finite_double lx" and fly: "finite_double ly"
    and elx: "\<bar>valof lx - (valof p * Cb + valof q * Sb)\<bar>
                \<le> 3 * (2 * A + 2 * E) / 2 ^ 53 + 4 * \<eta>"
    and ely: "\<bar>valof ly - (- valof p * Sb + valof q * Cb)\<bar>
                \<le> 3 * (2 * A + 2 * E) / 2 ^ 53 + 4 * \<eta>"
    by (simp_all add: lx_def ly_def Cb_def Sb_def)
  \<comment> \<open>the sum of the rotations\<close>
  from sum_rotation_err [OF wa wb]
  have fcab: "finite_double cab" and fsab: "finite_double sab"
    and ecab: "\<bar>valof cab - (Ca * Cb - Sa * Sb)\<bar> \<le> 7 / 2 ^ 53"
    and esab: "\<bar>valof sab - (Sa * Cb + Ca * Sb)\<bar> \<le> 7 / 2 ^ 53"
    and cab3: "\<bar>valof cab\<bar> \<le> 3" and sab3: "\<bar>valof sab\<bar> \<le> 3"
    by (simp_all add: cab_def sab_def Ca_def Sa_def Cb_def Sb_def)
  \<comment> \<open>the single transform by the sum\<close>
  have A3: "3 * A \<le> 2 powi 1021" using big A0 unfolding A_def X_def Y_def by (rule three_big)
  have prx: "\<bar>valof vx * valof cab\<bar> + \<bar>valof vy * valof sab\<bar> \<le> 3 * A"
    using abs_mult_le3 [OF cab3, of X] abs_mult_le3 [OF sab3, of Y]
    by (simp add: A_def X_def Y_def)
  have pry: "\<bar>valof (- vx) * valof sab\<bar> + \<bar>valof vy * valof cab\<bar> \<le> 3 * A"
    using abs_mult_le3 [OF sab3, of "- X"] abs_mult_le3 [OF cab3, of Y]
    by (simp add: A_def X_def Y_def)
  have fnx: "finite_double (- vx)" using fx by simp
  from dot_err_gen [OF fx fy fcab fsab prx A3, folded \<eta>_def]
  have frx: "finite_double rx"
    and erx: "\<bar>valof rx - (X * valof cab + Y * valof sab)\<bar> \<le> 3 * (3 * A) / 2 ^ 53 + 4 * \<eta>"
    by (simp_all add: rx_def FromFieldRelativeSpeeds_def X_def Y_def)
  from dot_err_gen [OF fnx fy fsab fcab pry A3, folded \<eta>_def]
  have fry: "finite_double ry"
    and ery: "\<bar>valof ry - (- X * valof sab + Y * valof cab)\<bar> \<le> 3 * (3 * A) / 2 ^ 53 + 4 * \<eta>"
    by (simp_all add: ry_def FromFieldRelativeSpeeds_def X_def Y_def)
  \<comment> \<open>the exact identities\<close>
  have idx: "(valof p * Cb + valof q * Sb) - (X * valof cab + Y * valof sab)
               = (valof p - L1) * Cb + (valof q - L2) * Sb
                 + (- X) * (valof cab - (Ca * Cb - Sa * Sb))
                 + (- Y) * (valof sab - (Sa * Cb + Ca * Sb))"
    by (simp add: L1_def L2_def algebra_simps)
  have idy: "(- valof p * Sb + valof q * Cb) - (- X * valof sab + Y * valof cab)
               = (- (valof p - L1)) * Sb + (valof q - L2) * Cb
                 + X * (valof sab - (Sa * Cb + Ca * Sb))
                 + (- Y) * (valof cab - (Ca * Cb - Sa * Sb))"
    by (simp add: L1_def L2_def algebra_simps)
  have t1c: "\<bar>(valof p - L1) * Cb\<bar> \<le> E"
    using abs_mult_le1 [OF cb1, of "valof p - L1"] ep by linarith
  have t1s: "\<bar>(- (valof p - L1)) * Sb\<bar> \<le> E"
    using abs_mult_le1 [OF sb1, of "- (valof p - L1)"] ep by simp
  have t2s: "\<bar>(valof q - L2) * Sb\<bar> \<le> E"
    using abs_mult_le1 [OF sb1, of "valof q - L2"] eq by linarith
  have t2c: "\<bar>(valof q - L2) * Cb\<bar> \<le> E"
    using abs_mult_le1 [OF cb1, of "valof q - L2"] eq by linarith
  have t3x: "\<bar>(- X) * (valof cab - (Ca * Cb - Sa * Sb))\<bar> \<le> 7 * \<bar>X\<bar> / 2 ^ 53"
    using abs_mult_eps [OF ecab, of "- X"] by simp
  have t4x: "\<bar>(- Y) * (valof sab - (Sa * Cb + Ca * Sb))\<bar> \<le> 7 * \<bar>Y\<bar> / 2 ^ 53"
    using abs_mult_eps [OF esab, of "- Y"] by simp
  have t3y: "\<bar>X * (valof sab - (Sa * Cb + Ca * Sb))\<bar> \<le> 7 * \<bar>X\<bar> / 2 ^ 53"
    using abs_mult_eps [OF esab, of X] by simp
  have t4y: "\<bar>(- Y) * (valof cab - (Ca * Cb - Sa * Sb))\<bar> \<le> 7 * \<bar>Y\<bar> / 2 ^ 53"
    using abs_mult_eps [OF ecab, of "- Y"] by simp
  have XY: "\<bar>X\<bar> + \<bar>Y\<bar> = A" by (simp add: A_def)
  have "\<bar>valof lx - valof rx\<bar>
          \<le> \<bar>valof lx - (valof p * Cb + valof q * Sb)\<bar>
            + \<bar>valof rx - (X * valof cab + Y * valof sab)\<bar>
            + \<bar>(valof p - L1) * Cb\<bar> + \<bar>(valof q - L2) * Sb\<bar>
            + \<bar>(- X) * (valof cab - (Ca * Cb - Sa * Sb))\<bar>
            + \<bar>(- Y) * (valof sab - (Sa * Cb + Ca * Sb))\<bar>"
    using idx by linarith
  also have "\<dots> \<le> A / 2 ^ 48 + 32 * \<eta>"
    by (rule composition_arith [OF elx erx t1c t2s t3x t4x XY E_def A0 eta0])
  finally have bx: "\<bar>valof lx - valof rx\<bar> \<le> A / 2 ^ 48 + 2 powi (- 1070)"
    by (simp only: \<eta>_def eta32)
  have "\<bar>valof ly - valof ry\<bar>
          \<le> \<bar>valof ly - (- valof p * Sb + valof q * Cb)\<bar>
            + \<bar>valof ry - (- X * valof sab + Y * valof cab)\<bar>
            + \<bar>(- (valof p - L1)) * Sb\<bar> + \<bar>(valof q - L2) * Cb\<bar>
            + \<bar>X * (valof sab - (Sa * Cb + Ca * Sb))\<bar>
            + \<bar>(- Y) * (valof cab - (Ca * Cb - Sa * Sb))\<bar>"
    using idy by linarith
  also have "\<dots> \<le> A / 2 ^ 48 + 32 * \<eta>"
    by (rule composition_arith [OF ely ery t1s t2c t3y t4y XY E_def A0 eta0])
  finally have "by": "\<bar>valof ly - valof ry\<bar> \<le> A / 2 ^ 48 + 2 powi (- 1070)"
    by (simp only: \<eta>_def eta32)
  have th: "dtheta (FromFieldRelativeSpeeds p q (dtheta (FromFieldRelativeSpeeds vx vy vtheta a)) b)
          = dtheta (FromFieldRelativeSpeeds vx vy vtheta \<lparr>Cos = cab, Sin = sab\<rparr>)"
    by (simp add: FromFieldRelativeSpeeds_def)
  have dth: "dtheta (FromFieldRelativeSpeeds vx vy vtheta a) = vtheta"
    by (simp add: FromFieldRelativeSpeeds_def)
  from flx fly frx fry bx "by" th show ?thesis
    unfolding close_to_def lx_def ly_def rx_def ry_def p_def q_def cab_def sab_def A_def X_def
      Y_def dth
    by blast
qed

theorem composition_tolerance_witness:
  "finite_double 1 \<and> well_formed rot_3_4 \<and> \<bar>valof 1\<bar> + \<bar>valof 1\<bar> \<le> 2 powi 1019 \<and>
   close_to
     (dx (FromFieldRelativeSpeeds
        (dx (FromFieldRelativeSpeeds 1 1 0 rot_3_4))
        (dy (FromFieldRelativeSpeeds 1 1 0 rot_3_4))
        (dtheta (FromFieldRelativeSpeeds 1 1 0 rot_3_4)) rot_3_4))
     (dx (FromFieldRelativeSpeeds 1 1 0
        \<lparr>Cos = Cos rot_3_4 * Cos rot_3_4 - Sin rot_3_4 * Sin rot_3_4,
         Sin = Sin rot_3_4 * Cos rot_3_4 + Cos rot_3_4 * Sin rot_3_4\<rparr>))
     ((\<bar>valof 1\<bar> + \<bar>valof 1\<bar>) / 2 ^ 48 + 2 powi (- 1070)) \<and>
   close_to
     (dy (FromFieldRelativeSpeeds
        (dx (FromFieldRelativeSpeeds 1 1 0 rot_3_4))
        (dy (FromFieldRelativeSpeeds 1 1 0 rot_3_4))
        (dtheta (FromFieldRelativeSpeeds 1 1 0 rot_3_4)) rot_3_4))
     (dy (FromFieldRelativeSpeeds 1 1 0
        \<lparr>Cos = Cos rot_3_4 * Cos rot_3_4 - Sin rot_3_4 * Sin rot_3_4,
         Sin = Sin rot_3_4 * Cos rot_3_4 + Cos rot_3_4 * Sin rot_3_4\<rparr>))
     ((\<bar>valof 1\<bar> + \<bar>valof 1\<bar>) / 2 ^ 48 + 2 powi (- 1070)) \<and>
   dtheta (FromFieldRelativeSpeeds
      (dx (FromFieldRelativeSpeeds 1 1 0 rot_3_4))
      (dy (FromFieldRelativeSpeeds 1 1 0 rot_3_4))
      (dtheta (FromFieldRelativeSpeeds 1 1 0 rot_3_4)) rot_3_4)
    = dtheta (FromFieldRelativeSpeeds 1 1 (0::double)
        \<lparr>Cos = Cos rot_3_4 * Cos rot_3_4 - Sin rot_3_4 * Sin rot_3_4,
         Sin = Sin rot_3_4 * Cos rot_3_4 + Cos rot_3_4 * Sin rot_3_4\<rparr>)"
  using finite_one well_formed_rot_3_4 range_one(2)
    composition_tolerance [OF finite_one finite_one well_formed_rot_3_4 well_formed_rot_3_4
      range_one(2), of 0]
  by blast

section \<open>Linearity (C9)\<close>

text \<open>
  C9, as stated, fails in double arithmetic: scaling the inputs \<open>(1, 1, 0)\<close> by 3 gives
  \<open>dx = 4.2\<close>, while 3 times the \<open>dx\<close> of the unscaled call is \<open>4.199999999999999\<close>.
\<close>

theorem linearity_counterexample:
  "dx (FromFieldRelativeSpeeds (three * 1) (three * 1) (three * 0) rot_3_4)
     = Finite False 4728779608739021 (- 50) \<and>
   three * dx (FromFieldRelativeSpeeds 1 1 0 rot_3_4)
     = Finite False 4728779608739020 (- 50)"
  by (simp add: from_1_1) (simp add: three_def rot_3_4_def FromFieldRelativeSpeeds_def double_eval)

lemma p49: "(2::real) ^ 49 = 562949953421312" by simp

lemma eta8: "8 * (2::real) powi (- 1075) = 2 powi (- 1072)"
proof -
  have "(2::real) powi (3 + (- 1075)) = 2 powi 3 * 2 powi (- 1075)" by (rule two_powi_add)
  then show ?thesis by simp
qed

lemma valof_bound:
  assumes "finite_double x"
  shows "\<bar>valof x\<bar> * 2 powi (- 1075) \<le> 1"
proof -
  obtain s m e where x: "x = Finite s m e" using assms by (cases x) simp_all
  from assms x have m: "m < 2 ^ 53" and e: "e \<le> 971" by simp_all
  have "real m \<le> 2 ^ 53" using m by (metis less_imp_le of_nat_le_iff of_nat_numeral of_nat_power)
  moreover have "(2::real) powi e \<le> 2 powi 971" using e by (rule two_powi_le)
  ultimately have "real m * 2 powi e \<le> 2 ^ 53 * 2 powi 971"
    by (intro mult_mono) simp_all
  also have "\<dots> = 2 powi 1024" using two_powi_add [of 53 971] by simp
  finally have "\<bar>valof x\<bar> \<le> 2 powi 1024" by (simp add: x abs_mult)
  then have "\<bar>valof x\<bar> * 2 powi (- 1075) \<le> 2 powi 1024 * 2 powi (- 1075)"
    by (intro mult_right_mono) simp_all
  also have "\<dots> = (2::real) powi (- 51)" using two_powi_add [of 1024 "- 1075"] by simp
  also have "\<dots> \<le> 2 powi 0" by (rule two_powi_le) simp
  finally show ?thesis by simp
qed

lemma hom_arith:
  fixes l0 t1 t2 t3 r0 B H \<eta> :: real
  assumes "l0 \<le> 3 * (B + B / 2 ^ 53 + 2 * \<eta>) / 2 ^ 53 + 4 * \<eta>"
    and "t1 + t2 \<le> B / 2 ^ 53 + 2 * \<eta>"
    and "t3 \<le> 3 * B / 2 ^ 53 + 4 * H"
    and "r0 \<le> (B + (3 * B / 2 ^ 53 + 4 * H)) / 2 ^ 53 + \<eta>"
    and "0 \<le> B" "0 \<le> H" "0 \<le> \<eta>"
  shows "l0 + (t1 + t2) + t3 + r0 \<le> B / 2 ^ 49 + 8 * \<eta> + 8 * H"
proof -
  have "3 * (B + B / 2 ^ 53 + 2 * \<eta>) / 2 ^ 53 \<le> 4 * B / 2 ^ 53 + \<eta>"
    using assms(5,7) by (simp add: field_simps)
  moreover have "(B + (3 * B / 2 ^ 53 + 4 * H)) / 2 ^ 53 \<le> 2 * B / 2 ^ 53 + H"
    using assms(5,6) by (simp add: field_simps)
  ultimately show ?thesis using assms unfolding p53 p49 by linarith
qed

text \<open>Scaling: the dot product of the scaled inputs against the scaled dot product.\<close>

lemma hom_dot:
  assumes fk: "finite_double k" and fka: "finite_double ka" and fkb: "finite_double kb"
    and fc: "finite_double c" and fs: "finite_double s" and fp: "finite_double p"
    and c1: "\<bar>valof c\<bar> \<le> 1" and s1: "\<bar>valof s\<bar> \<le> 1"
    and eka: "\<bar>valof ka - valof k * a\<bar> \<le> \<bar>valof k * a\<bar> / 2 ^ 53 + 2 powi (- 1075)"
    and ekb: "\<bar>valof kb - valof k * b\<bar> \<le> \<bar>valof k * b\<bar> / 2 ^ 53 + 2 powi (- 1075)"
    and ep: "\<bar>valof p - (a * valof c + b * valof s)\<bar>
               \<le> 3 * (\<bar>a\<bar> + \<bar>b\<bar>) / 2 ^ 53 + 4 * 2 powi (- 1075)"
    and big: "\<bar>valof k\<bar> * (\<bar>a\<bar> + \<bar>b\<bar>) \<le> 2 powi 1019"
  shows "close_to (ka * c + kb * s) (k * p)
           (\<bar>valof k\<bar> * (\<bar>a\<bar> + \<bar>b\<bar>) / 2 ^ 49 + (1 + \<bar>valof k\<bar>) * 2 powi (- 1072))"
proof -
  define K where "K = valof k"
  define C where "C = valof c"
  define S where "S = valof s"
  define \<eta> :: real where "\<eta> = 2 powi (- 1075)"
  define T :: real where "T = 2 powi 1019"
  define B where "B = \<bar>K\<bar> * (\<bar>a\<bar> + \<bar>b\<bar>)"
  define H where "H = \<bar>K\<bar> * \<eta>"
  define L where "L = a * C + b * S"
  note eta = eta_bounds [folded \<eta>_def]
  have eta0: "0 \<le> \<eta>" using eta by simp
  note bigT = big19 [folded T_def]
  have B0: "0 \<le> B" by (simp add: B_def)
  have H0: "0 \<le> H" using eta0 by (simp add: H_def)
  have H1: "H \<le> 1" using valof_bound [OF fk] by (simp add: H_def K_def \<eta>_def)
  have BT: "B \<le> T" using big by (simp add: B_def K_def T_def)
  have Bsplit: "\<bar>K * a\<bar> + \<bar>K * b\<bar> = B" by (simp add: B_def abs_mult algebra_simps)
  \<comment> \<open>left: the dot product of the scaled inputs\<close>
  have m1: "\<bar>valof ka\<bar> + \<bar>valof kb\<bar> \<le> B + B / 2 ^ 53 + 2 * \<eta>"
    using eka ekb Bsplit unfolding K_def [symmetric] \<eta>_def [symmetric] p53 by linarith
  have "B + B / 2 ^ 53 + 2 * \<eta> \<le> 4 * T" using BT bigT(2) B0 eta unfolding p53 by linarith
  then have m1big: "B + B / 2 ^ 53 + 2 * \<eta> \<le> 2 powi 1021"
    by (simp only: bigT(1) [unfolded T_def] T_def)
  from dot_err [OF fka fkb fc fs c1 s1 m1 m1big, folded \<eta>_def]
  have fl: "finite_double (ka * c + kb * s)"
    and el: "\<bar>valof (ka * c + kb * s) - (valof ka * C + valof kb * S)\<bar>
               \<le> 3 * (B + B / 2 ^ 53 + 2 * \<eta>) / 2 ^ 53 + 4 * \<eta>"
    by (simp_all add: C_def S_def)
  have t1: "\<bar>(valof ka - K * a) * C\<bar> \<le> \<bar>K * a\<bar> / 2 ^ 53 + \<eta>"
    using abs_mult_le1 [OF c1, of "valof ka - K * a"] eka
    unfolding K_def [symmetric] \<eta>_def [symmetric] C_def [symmetric] by linarith
  have t2: "\<bar>(valof kb - K * b) * S\<bar> \<le> \<bar>K * b\<bar> / 2 ^ 53 + \<eta>"
    using abs_mult_le1 [OF s1, of "valof kb - K * b"] ekb
    unfolding K_def [symmetric] \<eta>_def [symmetric] S_def [symmetric] by linarith
  have t12: "\<bar>(valof ka - K * a) * C\<bar> + \<bar>(valof kb - K * b) * S\<bar> \<le> B / 2 ^ 53 + 2 * \<eta>"
    using t1 t2 Bsplit unfolding p53 by linarith
  \<comment> \<open>right: the scaled result\<close>
  have ep': "\<bar>valof p - L\<bar> \<le> 3 * (\<bar>a\<bar> + \<bar>b\<bar>) / 2 ^ 53 + 4 * \<eta>"
    using ep by (simp add: L_def C_def S_def \<eta>_def)
  have "\<bar>K\<bar> * \<bar>valof p - L\<bar> \<le> \<bar>K\<bar> * (3 * (\<bar>a\<bar> + \<bar>b\<bar>) / 2 ^ 53 + 4 * \<eta>)"
    using ep' by (intro mult_left_mono) simp_all
  also have "\<dots> = 3 * B / 2 ^ 53 + 4 * H" by (simp add: B_def H_def algebra_simps)
  finally have t3: "\<bar>K * (valof p - L)\<bar> \<le> 3 * B / 2 ^ 53 + 4 * H" by (simp add: abs_mult)
  have "\<bar>L\<bar> \<le> \<bar>a\<bar> + \<bar>b\<bar>" unfolding L_def by (rule abs_dot_le [OF c1 [folded C_def] s1 [folded S_def]])
  then have "\<bar>K\<bar> * \<bar>L\<bar> \<le> \<bar>K\<bar> * (\<bar>a\<bar> + \<bar>b\<bar>)" by (intro mult_left_mono) simp_all
  then have KL: "\<bar>K * L\<bar> \<le> B" by (simp add: abs_mult B_def)
  have "K * valof p = K * L + K * (valof p - L)" by (simp add: algebra_simps)
  then have KP: "\<bar>K * valof p\<bar> \<le> B + (3 * B / 2 ^ 53 + 4 * H)" using KL t3 by linarith
  then have "\<bar>K * valof p\<bar> < 16 * T" using BT bigT(2) B0 H1 unfolding p53 by linarith
  moreover have "(2::real) powi 1023 = 16 * T"
    using two_powi_add [of 4 1019] by (simp add: T_def)
  ultimately have sm: "\<bar>valof k * valof p\<bar> < 2 powi 1023" by (simp add: K_def)
  from mul_err [OF fk fp sm, folded \<eta>_def]
  have fr: "finite_double (k * p)"
    and er0: "\<bar>valof (k * p) - K * valof p\<bar> \<le> \<bar>K * valof p\<bar> / 2 ^ 53 + \<eta>"
    by (simp_all add: K_def)
  have dv: "\<bar>K * valof p\<bar> / 2 ^ 53 \<le> (B + (3 * B / 2 ^ 53 + 4 * H)) / 2 ^ 53"
    using KP by (rule divide_right_mono) simp
  have er: "\<bar>valof (k * p) - K * valof p\<bar> \<le> (B + (3 * B / 2 ^ 53 + 4 * H)) / 2 ^ 53 + \<eta>"
    by (rule order_trans [OF er0 add_right_mono [OF dv]])
  \<comment> \<open>together\<close>
  have id: "valof (ka * c + kb * s) - valof (k * p)
          = (valof (ka * c + kb * s) - (valof ka * C + valof kb * S))
            + ((valof ka - K * a) * C + (valof kb - K * b) * S)
            - K * (valof p - L) - (valof (k * p) - K * valof p)"
    by (simp add: L_def algebra_simps)
  have "\<bar>valof (ka * c + kb * s) - valof (k * p)\<bar>
          \<le> \<bar>valof (ka * c + kb * s) - (valof ka * C + valof kb * S)\<bar>
            + (\<bar>(valof ka - K * a) * C\<bar> + \<bar>(valof kb - K * b) * S\<bar>)
            + \<bar>K * (valof p - L)\<bar> + \<bar>valof (k * p) - K * valof p\<bar>"
    using id by linarith
  also have "\<dots> \<le> B / 2 ^ 49 + 8 * \<eta> + 8 * H"
    by (rule hom_arith [OF el t12 t3 er B0 H0 eta0])
  also have "\<dots> = B / 2 ^ 49 + (1 + \<bar>K\<bar>) * (8 * \<eta>)" by (simp add: H_def algebra_simps)
  finally have "\<bar>valof (ka * c + kb * s) - valof (k * p)\<bar>
                  \<le> B / 2 ^ 49 + (1 + \<bar>K\<bar>) * 2 powi (- 1072)"
    by (simp only: \<eta>_def eta8)
  with fl fr show ?thesis by (simp only: close_to_def B_def K_def)
qed

lemma add_arith:
  fixes l0 t12 t3 r0 G \<eta> :: real
  assumes "l0 \<le> 3 * (G + G / 2 ^ 53 + 2 * \<eta>) / 2 ^ 53 + 4 * \<eta>"
    and "t12 \<le> G / 2 ^ 53 + 2 * \<eta>"
    and "t3 \<le> 3 * G / 2 ^ 53 + 8 * \<eta>"
    and "r0 \<le> (G + (3 * G / 2 ^ 53 + 8 * \<eta>)) / 2 ^ 53 + \<eta>"
    and "0 \<le> G" "0 \<le> \<eta>"
  shows "l0 + t12 + t3 + r0 \<le> G / 2 ^ 49 + 32 * \<eta>"
proof -
  have "3 * (G + G / 2 ^ 53 + 2 * \<eta>) / 2 ^ 53 \<le> 4 * G / 2 ^ 53 + \<eta>"
    using assms(5,6) by (simp add: field_simps)
  moreover have "(G + (3 * G / 2 ^ 53 + 8 * \<eta>)) / 2 ^ 53 \<le> 2 * G / 2 ^ 53 + \<eta>"
    using assms(5,6) by (simp add: field_simps)
  ultimately show ?thesis using assms unfolding p53 p49 by linarith
qed

lemma m1_arith:
  fixes x y d1 d2 u v G \<eta> :: real
  assumes "x \<le> d1 + u" "y \<le> d2 + v" "d1 \<le> u / 2 ^ 53 + \<eta>" "d2 \<le> v / 2 ^ 53 + \<eta>"
    and "u + v \<le> G"
  shows "x + y \<le> G + G / 2 ^ 53 + 2 * \<eta>"
  using assms unfolding p53 by linarith

lemma t12_arith:
  fixes t1 t2 u v G \<eta> :: real
  assumes "t1 \<le> u / 2 ^ 53 + \<eta>" "t2 \<le> v / 2 ^ 53 + \<eta>" "u + v \<le> G"
  shows "t1 + t2 \<le> G / 2 ^ 53 + 2 * \<eta>"
  using assms unfolding p53 by linarith

lemma t3_arith:
  fixes d d' u v G \<eta> :: real
  assumes "d \<le> 3 * u / 2 ^ 53 + 4 * \<eta>" "d' \<le> 3 * v / 2 ^ 53 + 4 * \<eta>" "u + v = G"
  shows "d + d' \<le> 3 * G / 2 ^ 53 + 8 * \<eta>"
  using assms unfolding p53 by linarith

lemma abs4:
  fixes x y l l' :: real
  shows "\<bar>x + y\<bar> \<le> (\<bar>l\<bar> + \<bar>l'\<bar>) + (\<bar>x - l\<bar> + \<bar>y - l'\<bar>)"
  by linarith

lemma pp_arith:
  fixes z l l' u v t G E :: real
  assumes "z \<le> (l + l') + t" "l \<le> u" "l' \<le> v" "u + v = G" "t \<le> E"
  shows "z \<le> G + E"
  using assms by linarith

text \<open>Addition: the dot product of the sums against the sum of the dot products.\<close>

lemma add_dot:
  assumes fsa: "finite_double sa" and fsb: "finite_double sb"
    and fc: "finite_double c" and fs: "finite_double s"
    and fp: "finite_double p" and fp': "finite_double p'"
    and c1: "\<bar>valof c\<bar> \<le> 1" and s1: "\<bar>valof s\<bar> \<le> 1"
    and ea: "\<bar>valof sa - (a + a')\<bar> \<le> \<bar>a + a'\<bar> / 2 ^ 53 + 2 powi (- 1075)"
    and eb: "\<bar>valof sb - (b + b')\<bar> \<le> \<bar>b + b'\<bar> / 2 ^ 53 + 2 powi (- 1075)"
    and ep: "\<bar>valof p - (a * valof c + b * valof s)\<bar>
               \<le> 3 * (\<bar>a\<bar> + \<bar>b\<bar>) / 2 ^ 53 + 4 * 2 powi (- 1075)"
    and ep': "\<bar>valof p' - (a' * valof c + b' * valof s)\<bar>
               \<le> 3 * (\<bar>a'\<bar> + \<bar>b'\<bar>) / 2 ^ 53 + 4 * 2 powi (- 1075)"
    and big: "\<bar>a\<bar> + \<bar>b\<bar> + \<bar>a'\<bar> + \<bar>b'\<bar> \<le> 2 powi 1019"
  shows "close_to (sa * c + sb * s) (p + p')
           ((\<bar>a\<bar> + \<bar>b\<bar> + \<bar>a'\<bar> + \<bar>b'\<bar>) / 2 ^ 49 + 2 powi (- 1070))"
proof -
  define C where "C = valof c"
  define S where "S = valof s"
  define \<eta> :: real where "\<eta> = 2 powi (- 1075)"
  define T :: real where "T = 2 powi 1019"
  define G where "G = \<bar>a\<bar> + \<bar>b\<bar> + \<bar>a'\<bar> + \<bar>b'\<bar>"
  define L where "L = a * C + b * S"
  define L' where "L' = a' * C + b' * S"
  note eta = eta_bounds [folded \<eta>_def]
  have eta0: "0 \<le> \<eta>" using eta by simp
  note bigT = big19 [folded T_def]
  have G0: "0 \<le> G" by (simp add: G_def)
  have GT: "G \<le> T" using big by (simp add: G_def T_def)
  have ab: "\<bar>a + a'\<bar> + \<bar>b + b'\<bar> \<le> G" unfolding G_def by linarith
  \<comment> \<open>left: the dot product of the sums\<close>
  have xa: "\<bar>valof sa\<bar> \<le> \<bar>valof sa - (a + a')\<bar> + \<bar>a + a'\<bar>" by linarith
  have xb: "\<bar>valof sb\<bar> \<le> \<bar>valof sb - (b + b')\<bar> + \<bar>b + b'\<bar>" by linarith
  have m1: "\<bar>valof sa\<bar> + \<bar>valof sb\<bar> \<le> G + G / 2 ^ 53 + 2 * \<eta>"
    by (rule m1_arith [OF xa xb ea [folded \<eta>_def] eb [folded \<eta>_def] ab])
  have "G + G / 2 ^ 53 + 2 * \<eta> \<le> 4 * T" using GT bigT(2) G0 eta unfolding p53 by linarith
  then have m1big: "G + G / 2 ^ 53 + 2 * \<eta> \<le> 2 powi 1021"
    by (simp only: bigT(1) [unfolded T_def] T_def)
  from dot_err [OF fsa fsb fc fs c1 s1 m1 m1big, folded \<eta>_def]
  have fl: "finite_double (sa * c + sb * s)"
    and el: "\<bar>valof (sa * c + sb * s) - (valof sa * C + valof sb * S)\<bar>
               \<le> 3 * (G + G / 2 ^ 53 + 2 * \<eta>) / 2 ^ 53 + 4 * \<eta>"
    by (simp_all add: C_def S_def)
  have t1: "\<bar>(valof sa - (a + a')) * C\<bar> \<le> \<bar>a + a'\<bar> / 2 ^ 53 + \<eta>"
    using abs_mult_le1 [OF c1, of "valof sa - (a + a')"] ea
    unfolding \<eta>_def [symmetric] C_def [symmetric] by linarith
  have t2: "\<bar>(valof sb - (b + b')) * S\<bar> \<le> \<bar>b + b'\<bar> / 2 ^ 53 + \<eta>"
    using abs_mult_le1 [OF s1, of "valof sb - (b + b')"] eb
    unfolding \<eta>_def [symmetric] S_def [symmetric] by linarith
  have t12: "\<bar>(valof sa - (a + a')) * C\<bar> + \<bar>(valof sb - (b + b')) * S\<bar> \<le> G / 2 ^ 53 + 2 * \<eta>"
    by (rule t12_arith [OF t1 t2 ab])
  \<comment> \<open>right: the sum of the results\<close>
  have pe: "\<bar>valof p - L\<bar> \<le> 3 * (\<bar>a\<bar> + \<bar>b\<bar>) / 2 ^ 53 + 4 * \<eta>"
    using ep by (simp add: L_def C_def S_def \<eta>_def)
  have pe': "\<bar>valof p' - L'\<bar> \<le> 3 * (\<bar>a'\<bar> + \<bar>b'\<bar>) / 2 ^ 53 + 4 * \<eta>"
    using ep' by (simp add: L'_def C_def S_def \<eta>_def)
  have Guv: "(\<bar>a\<bar> + \<bar>b\<bar>) + (\<bar>a'\<bar> + \<bar>b'\<bar>) = G" by (simp add: G_def)
  have t3: "\<bar>valof p - L\<bar> + \<bar>valof p' - L'\<bar> \<le> 3 * G / 2 ^ 53 + 8 * \<eta>"
    by (rule t3_arith [OF pe pe' Guv])
  have l: "\<bar>L\<bar> \<le> \<bar>a\<bar> + \<bar>b\<bar>" unfolding L_def
    by (rule abs_dot_le [OF c1 [folded C_def] s1 [folded S_def]])
  have l': "\<bar>L'\<bar> \<le> \<bar>a'\<bar> + \<bar>b'\<bar>" unfolding L'_def
    by (rule abs_dot_le [OF c1 [folded C_def] s1 [folded S_def]])
  have PP: "\<bar>valof p + valof p'\<bar> \<le> G + (3 * G / 2 ^ 53 + 8 * \<eta>)"
    by (rule pp_arith [OF abs4 [of "valof p" "valof p'" L L'] l l' Guv t3])
  then have "\<bar>valof p + valof p'\<bar> < 16 * T" using GT bigT(2) G0 eta unfolding p53 by linarith
  moreover have "(2::real) powi 1023 = 16 * T"
    using two_powi_add [of 4 1019] by (simp add: T_def)
  ultimately have sm: "\<bar>valof p + valof p'\<bar> < 2 powi 1023" by simp
  from add_err [OF fp fp' sm, folded \<eta>_def]
  have fr: "finite_double (p + p')"
    and er0: "\<bar>valof (p + p') - (valof p + valof p')\<bar> \<le> \<bar>valof p + valof p'\<bar> / 2 ^ 53 + \<eta>"
    by simp_all
  have dv: "\<bar>valof p + valof p'\<bar> / 2 ^ 53 \<le> (G + (3 * G / 2 ^ 53 + 8 * \<eta>)) / 2 ^ 53"
    using PP by (rule divide_right_mono) simp
  have er: "\<bar>valof (p + p') - (valof p + valof p')\<bar> \<le> (G + (3 * G / 2 ^ 53 + 8 * \<eta>)) / 2 ^ 53 + \<eta>"
    by (rule order_trans [OF er0 add_right_mono [OF dv]])
  \<comment> \<open>together\<close>
  have id: "valof (sa * c + sb * s) - valof (p + p')
          = (valof (sa * c + sb * s) - (valof sa * C + valof sb * S))
            + ((valof sa - (a + a')) * C + (valof sb - (b + b')) * S)
            - ((valof p - L) + (valof p' - L')) - (valof (p + p') - (valof p + valof p'))"
    by (simp add: L_def L'_def algebra_simps)
  have "\<bar>valof (sa * c + sb * s) - valof (p + p')\<bar>
          \<le> \<bar>valof (sa * c + sb * s) - (valof sa * C + valof sb * S)\<bar>
            + (\<bar>(valof sa - (a + a')) * C\<bar> + \<bar>(valof sb - (b + b')) * S\<bar>)
            + (\<bar>valof p - L\<bar> + \<bar>valof p' - L'\<bar>) + \<bar>valof (p + p') - (valof p + valof p')\<bar>"
    using id by linarith
  also have "\<dots> \<le> G / 2 ^ 49 + 32 * \<eta>"
    by (rule add_arith [OF el t12 t3 er G0 eta0])
  finally have "\<bar>valof (sa * c + sb * s) - valof (p + p')\<bar> \<le> G / 2 ^ 49 + 2 powi (- 1070)"
    by (simp only: \<eta>_def eta32)
  with fl fr show ?thesis by (simp only: close_to_def G_def)
qed

text \<open>Zero inputs give zeros, of either sign.\<close>

lemma zero_dot:
  assumes "finite_double c" "finite_double s"
  shows "double_eq (0 * c + 0 * s) 0 \<and> double_eq (- 0 * s + 0 * c) 0"
proof -
  obtain t n f where c: "c = Finite t n f" using assms(1) by (cases c) simp_all
  obtain t' n' f' where s: "s = Finite t' n' f'" using assms(2) by (cases s) simp_all
  show ?thesis
    by (simp add: c s zero_double_def times_double_def plus_double_def uminus_double_def
        round_double_def round_sum_def)
qed

lemma small_of_le:
  fixes x :: real
  assumes "x \<le> 2 powi 1019"
  shows "x < 2 powi 1023"
proof -
  have "(2::real) powi 1019 < 2 powi 1023" by (simp only: two_powi_less_iff)
  with assms show ?thesis by linarith
qed

lemma le_1021:
  fixes x :: real
  assumes "x \<le> 2 powi 1019"
  shows "x \<le> 2 powi 1021"
proof -
  have "(2::real) powi 1019 \<le> 2 powi 1021" by (rule two_powi_le) simp
  with assms show ?thesis by linarith
qed

lemma abs_part_le:
  fixes K X Y :: real
  shows "\<bar>K * X\<bar> \<le> \<bar>K\<bar> * (\<bar>X\<bar> + \<bar>Y\<bar>)" "\<bar>K * Y\<bar> \<le> \<bar>K\<bar> * (\<bar>X\<bar> + \<bar>Y\<bar>)"
  by (simp_all add: abs_mult mult_left_mono)

text \<open>
  C9 (amended). For every well-formed rotation the transform is linear in
  \<open>(vx, vy, vtheta)\<close> up to rounding. For finite doubles \<open>k\<close>, \<open>vx\<close>, \<open>vy\<close>, \<open>wx\<close>, \<open>wy\<close>
  with \<open>\<bar>k\<bar> * (\<bar>vx\<bar> + \<bar>vy\<bar>) \<le> 2^1019\<close> and \<open>\<bar>vx\<bar> + \<bar>vy\<bar> + \<bar>wx\<bar> + \<bar>wy\<bar> \<le> 2^1019\<close>:
  scaling the three inputs by \<open>k\<close> gives \<open>dx\<close>, \<open>dy\<close> within
  \<open>\<bar>k\<bar> * (\<bar>vx\<bar> + \<bar>vy\<bar>) / 2^49 + (1 + \<bar>k\<bar>) * 2^-1072\<close> of \<open>k\<close> times the unscaled
  \<open>dx\<close>, \<open>dy\<close>, and exactly \<open>k\<close> times the unscaled \<open>dtheta\<close>; the result of a
  componentwise sum of two input triples has \<open>dx\<close>, \<open>dy\<close> within
  \<open>(\<bar>vx\<bar> + \<bar>vy\<bar> + \<bar>wx\<bar> + \<bar>wy\<bar>) / 2^49 + 2^-1070\<close> of the sum of the two results, and
  exactly the sum of their \<open>dtheta\<close>; and the inputs \<open>(0, 0, 0)\<close> give a ChassisSpeeds
  whose three fields equal zero.
\<close>

theorem linearity_tolerance:
  assumes fk: "finite_double k" and fx: "finite_double vx" and fy: "finite_double vy"
    and fwx: "finite_double wx" and fwy: "finite_double wy"
    and wf: "well_formed robotAngle"
    and bigk: "\<bar>valof k\<bar> * (\<bar>valof vx\<bar> + \<bar>valof vy\<bar>) \<le> 2 powi 1019"
    and bigv: "\<bar>valof vx\<bar> + \<bar>valof vy\<bar> + \<bar>valof wx\<bar> + \<bar>valof wy\<bar> \<le> 2 powi 1019"
  shows "close_to (dx (FromFieldRelativeSpeeds (k * vx) (k * vy) (k * vtheta) robotAngle))
           (k * dx (FromFieldRelativeSpeeds vx vy vtheta robotAngle))
           (\<bar>valof k\<bar> * (\<bar>valof vx\<bar> + \<bar>valof vy\<bar>) / 2 ^ 49
              + (1 + \<bar>valof k\<bar>) * 2 powi (- 1072)) \<and>
         close_to (dy (FromFieldRelativeSpeeds (k * vx) (k * vy) (k * vtheta) robotAngle))
           (k * dy (FromFieldRelativeSpeeds vx vy vtheta robotAngle))
           (\<bar>valof k\<bar> * (\<bar>valof vx\<bar> + \<bar>valof vy\<bar>) / 2 ^ 49
              + (1 + \<bar>valof k\<bar>) * 2 powi (- 1072)) \<and>
         dtheta (FromFieldRelativeSpeeds (k * vx) (k * vy) (k * vtheta) robotAngle)
           = k * dtheta (FromFieldRelativeSpeeds vx vy vtheta robotAngle) \<and>
         close_to (dx (FromFieldRelativeSpeeds (vx + wx) (vy + wy) (vtheta + wtheta) robotAngle))
           (dx (FromFieldRelativeSpeeds vx vy vtheta robotAngle)
              + dx (FromFieldRelativeSpeeds wx wy wtheta robotAngle))
           ((\<bar>valof vx\<bar> + \<bar>valof vy\<bar> + \<bar>valof wx\<bar> + \<bar>valof wy\<bar>) / 2 ^ 49
              + 2 powi (- 1070)) \<and>
         close_to (dy (FromFieldRelativeSpeeds (vx + wx) (vy + wy) (vtheta + wtheta) robotAngle))
           (dy (FromFieldRelativeSpeeds vx vy vtheta robotAngle)
              + dy (FromFieldRelativeSpeeds wx wy wtheta robotAngle))
           ((\<bar>valof vx\<bar> + \<bar>valof vy\<bar> + \<bar>valof wx\<bar> + \<bar>valof wy\<bar>) / 2 ^ 49
              + 2 powi (- 1070)) \<and>
         dtheta (FromFieldRelativeSpeeds (vx + wx) (vy + wy) (vtheta + wtheta) robotAngle)
           = dtheta (FromFieldRelativeSpeeds vx vy vtheta robotAngle)
              + dtheta (FromFieldRelativeSpeeds wx wy wtheta robotAngle) \<and>
         double_eq (dx (FromFieldRelativeSpeeds 0 0 0 robotAngle)) 0 \<and>
         double_eq (dy (FromFieldRelativeSpeeds 0 0 0 robotAngle)) 0 \<and>
         dtheta (FromFieldRelativeSpeeds 0 0 0 robotAngle) = 0"
proof -
  define c where "c = Cos robotAngle"
  define s where "s = Sin robotAngle"
  define K where "K = valof k"
  define X where "X = valof vx"
  define Y where "Y = valof vy"
  define X' where "X' = valof wx"
  define Y' where "Y' = valof wy"
  define p where "p = dx (FromFieldRelativeSpeeds vx vy vtheta robotAngle)"
  define q where "q = dy (FromFieldRelativeSpeeds vx vy vtheta robotAngle)"
  define p' where "p' = dx (FromFieldRelativeSpeeds wx wy wtheta robotAngle)"
  define q' where "q' = dy (FromFieldRelativeSpeeds wx wy wtheta robotAngle)"
  from wf have fc: "finite_double c" and fs: "finite_double s"
    and c1: "\<bar>valof c\<bar> \<le> 1" and s1: "\<bar>valof s\<bar> \<le> 1"
    by (simp_all add: well_formed_def c_def s_def)
  have bigk': "\<bar>K\<bar> * (\<bar>X\<bar> + \<bar>Y\<bar>) \<le> 2 powi 1019" using bigk by (simp add: K_def X_def Y_def)
  have bigv': "\<bar>X\<bar> + \<bar>Y\<bar> + \<bar>X'\<bar> + \<bar>Y'\<bar> \<le> 2 powi 1019"
    using bigv by (simp add: X_def Y_def X'_def Y'_def)
  have "\<bar>X\<bar> + \<bar>Y\<bar> \<le> 2 powi 1019" using bigv' by linarith
  then have A21: "\<bar>valof vx\<bar> + \<bar>valof vy\<bar> \<le> 2 powi 1021" unfolding X_def Y_def by (rule le_1021)
  have "\<bar>X'\<bar> + \<bar>Y'\<bar> \<le> 2 powi 1019" using bigv' by linarith
  then have A21': "\<bar>valof wx\<bar> + \<bar>valof wy\<bar> \<le> 2 powi 1021" unfolding X'_def Y'_def by (rule le_1021)
  \<comment> \<open>the two unscaled results\<close>
  from transform_err [OF fx fy wf order_refl A21, of vtheta]
  have fp: "finite_double p" and fq: "finite_double q"
    and ep: "\<bar>valof p - (X * valof c + Y * valof s)\<bar>
               \<le> 3 * (\<bar>X\<bar> + \<bar>Y\<bar>) / 2 ^ 53 + 4 * 2 powi (- 1075)"
    and eq: "\<bar>valof q - (- X * valof s + Y * valof c)\<bar>
               \<le> 3 * (\<bar>- X\<bar> + \<bar>Y\<bar>) / 2 ^ 53 + 4 * 2 powi (- 1075)"
    by (simp_all add: p_def q_def c_def s_def X_def Y_def)
  from transform_err [OF fwx fwy wf order_refl A21', of wtheta]
  have fp': "finite_double p'" and fq': "finite_double q'"
    and ep': "\<bar>valof p' - (X' * valof c + Y' * valof s)\<bar>
               \<le> 3 * (\<bar>X'\<bar> + \<bar>Y'\<bar>) / 2 ^ 53 + 4 * 2 powi (- 1075)"
    and eq': "\<bar>valof q' - (- X' * valof s + Y' * valof c)\<bar>
               \<le> 3 * (\<bar>- X'\<bar> + \<bar>Y'\<bar>) / 2 ^ 53 + 4 * 2 powi (- 1075)"
    by (simp_all add: p'_def q'_def c_def s_def X'_def Y'_def)
  \<comment> \<open>scaling\<close>
  have smx: "\<bar>valof k * valof vx\<bar> < 2 powi 1023"
    using abs_part_le(1) [of K X Y] bigk' unfolding K_def X_def by (intro small_of_le) linarith
  have smy: "\<bar>valof k * valof vy\<bar> < 2 powi 1023"
    using abs_part_le(2) [of K Y X] bigk' unfolding K_def Y_def by (intro small_of_le) linarith
  from mul_err [OF fk fx smx]
  have fkx: "finite_double (k * vx)"
    and ekx: "\<bar>valof (k * vx) - K * X\<bar> \<le> \<bar>K * X\<bar> / 2 ^ 53 + 2 powi (- 1075)"
    by (simp_all add: K_def X_def)
  from mul_err [OF fk fy smy]
  have fky: "finite_double (k * vy)"
    and eky: "\<bar>valof (k * vy) - K * Y\<bar> \<le> \<bar>K * Y\<bar> / 2 ^ 53 + 2 powi (- 1075)"
    by (simp_all add: K_def Y_def)
  have fnkx: "finite_double (- (k * vx))" using fkx by simp
  have enkx: "\<bar>valof (- (k * vx)) - K * (- X)\<bar> \<le> \<bar>K * (- X)\<bar> / 2 ^ 53 + 2 powi (- 1075)"
    using ekx by simp
  have bigkn: "\<bar>K\<bar> * (\<bar>- X\<bar> + \<bar>Y\<bar>) \<le> 2 powi 1019" using bigk' by simp
  from hom_dot [OF fk fkx fky fc fs fp c1 s1 ekx [unfolded K_def] eky [unfolded K_def] ep
      bigk' [unfolded K_def]]
  have h1: "close_to (k * vx * c + k * vy * s) (k * p)
              (\<bar>K\<bar> * (\<bar>X\<bar> + \<bar>Y\<bar>) / 2 ^ 49 + (1 + \<bar>K\<bar>) * 2 powi (- 1072))"
    by (simp only: K_def)
  from hom_dot [OF fk fnkx fky fs fc fq s1 c1 enkx [unfolded K_def] eky [unfolded K_def] eq
      bigkn [unfolded K_def]]
  have h2: "close_to (- (k * vx) * s + k * vy * c) (k * q)
              (\<bar>K\<bar> * (\<bar>X\<bar> + \<bar>Y\<bar>) / 2 ^ 49 + (1 + \<bar>K\<bar>) * 2 powi (- 1072))"
    by (simp add: K_def)
  \<comment> \<open>addition\<close>
  have "\<bar>X + X'\<bar> \<le> 2 powi 1019" using bigv' by linarith
  then have sax: "\<bar>valof vx + valof wx\<bar> < 2 powi 1023" unfolding X_def X'_def by (rule small_of_le)
  have "\<bar>Y + Y'\<bar> \<le> 2 powi 1019" using bigv' by linarith
  then have say: "\<bar>valof vy + valof wy\<bar> < 2 powi 1023" unfolding Y_def Y'_def by (rule small_of_le)
  from add_err [OF fx fwx sax]
  have fsx: "finite_double (vx + wx)"
    and esx: "\<bar>valof (vx + wx) - (X + X')\<bar> \<le> \<bar>X + X'\<bar> / 2 ^ 53 + 2 powi (- 1075)"
    by (simp_all add: X_def X'_def)
  from add_err [OF fy fwy say]
  have fsy: "finite_double (vy + wy)"
    and esy: "\<bar>valof (vy + wy) - (Y + Y')\<bar> \<le> \<bar>Y + Y'\<bar> / 2 ^ 53 + 2 powi (- 1075)"
    by (simp_all add: Y_def Y'_def)
  have fnsx: "finite_double (- (vx + wx))" using fsx by simp
  have "\<bar>valof (- (vx + wx)) - (- X + - X')\<bar> = \<bar>valof (vx + wx) - (X + X')\<bar>" by simp
  moreover have "\<bar>- X + - X'\<bar> = \<bar>X + X'\<bar>" by simp
  ultimately have ensx: "\<bar>valof (- (vx + wx)) - (- X + - X')\<bar>
                          \<le> \<bar>- X + - X'\<bar> / 2 ^ 53 + 2 powi (- 1075)"
    using esx by (simp only:)
  have bigvn: "\<bar>- X\<bar> + \<bar>Y\<bar> + \<bar>- X'\<bar> + \<bar>Y'\<bar> \<le> 2 powi 1019" using bigv' by simp
  from add_dot [OF fsx fsy fc fs fp fp' c1 s1 esx esy ep ep' bigv']
  have a1: "close_to ((vx + wx) * c + (vy + wy) * s) (p + p')
              ((\<bar>X\<bar> + \<bar>Y\<bar> + \<bar>X'\<bar> + \<bar>Y'\<bar>) / 2 ^ 49 + 2 powi (- 1070))" .
  from add_dot [OF fnsx fsy fs fc fq fq' s1 c1 ensx esy eq eq' bigvn]
  have a2: "close_to (- (vx + wx) * s + (vy + wy) * c) (q + q')
              ((\<bar>X\<bar> + \<bar>Y\<bar> + \<bar>X'\<bar> + \<bar>Y'\<bar>) / 2 ^ 49 + 2 powi (- 1070))"
    by simp
  note z = zero_dot [OF fc fs]
  from h1 h2 a1 a2 z show ?thesis
    by (simp add: FromFieldRelativeSpeeds_def p_def q_def p'_def q'_def c_def s_def
        K_def X_def Y_def X'_def Y'_def)
qed

theorem linearity_tolerance_witness:
  "finite_double three \<and> finite_double 1 \<and> well_formed rot_3_4 \<and>
   \<bar>valof three\<bar> * (\<bar>valof 1\<bar> + \<bar>valof 1\<bar>) \<le> 2 powi 1019 \<and>
   \<bar>valof 1\<bar> + \<bar>valof 1\<bar> + \<bar>valof 1\<bar> + \<bar>valof 1\<bar> \<le> 2 powi 1019 \<and>
   close_to (dx (FromFieldRelativeSpeeds (three * 1) (three * 1) (three * 0) rot_3_4))
     (three * dx (FromFieldRelativeSpeeds 1 1 0 rot_3_4))
     (\<bar>valof three\<bar> * (\<bar>valof 1\<bar> + \<bar>valof 1\<bar>) / 2 ^ 49
        + (1 + \<bar>valof three\<bar>) * 2 powi (- 1072)) \<and>
   close_to (dx (FromFieldRelativeSpeeds (1 + 1) (1 + 1) (0 + 0) rot_3_4))
     (dx (FromFieldRelativeSpeeds 1 1 0 rot_3_4) + dx (FromFieldRelativeSpeeds 1 1 0 rot_3_4))
     ((\<bar>valof 1\<bar> + \<bar>valof 1\<bar> + \<bar>valof 1\<bar> + \<bar>valof 1\<bar>) / 2 ^ 49 + 2 powi (- 1070)) \<and>
   double_eq (dx (FromFieldRelativeSpeeds 0 0 0 rot_3_4)) 0"
  using finite_three finite_one well_formed_rot_3_4 range_one(4,5)
    linearity_tolerance [OF finite_three finite_one finite_one finite_one finite_one
      well_formed_rot_3_4 range_one(4,5), of 0 0]
  by blast

section \<open>The same identities in exact arithmetic\<close>

text \<open>
  Read over the real numbers (the scalar type \<open>real\<close> in place of \<open>double\<close>), the
  expressions of the transform are the rotation of \<open>(vx, vy)\<close> by \<open>-robotAngle\<close>, and the
  identities above hold without error.
\<close>

lemma roundtrip_exact:
  fixes vx vy vtheta :: real and theta :: "real Rotation2d"
  assumes unit: "Cos theta * Cos theta + Sin theta * Sin theta = 1"
  shows "dx (FromFieldRelativeSpeeds vx vy vtheta theta) * Cos theta
           - dy (FromFieldRelativeSpeeds vx vy vtheta theta) * Sin theta = vx \<and>
         dx (FromFieldRelativeSpeeds vx vy vtheta theta) * Sin theta
           + dy (FromFieldRelativeSpeeds vx vy vtheta theta) * Cos theta = vy"
proof -
  have "(vx * Cos theta + vy * Sin theta) * Cos theta
          - (- vx * Sin theta + vy * Cos theta) * Sin theta
        = vx * (Cos theta * Cos theta + Sin theta * Sin theta)"
    by (simp add: algebra_simps)
  moreover have "(vx * Cos theta + vy * Sin theta) * Sin theta
          + (- vx * Sin theta + vy * Cos theta) * Cos theta
        = vy * (Cos theta * Cos theta + Sin theta * Sin theta)"
    by (simp add: algebra_simps)
  ultimately show ?thesis
    by (simp add: FromFieldRelativeSpeeds_def unit)
qed

lemma norm_exact:
  fixes vx vy vtheta :: real and robotAngle :: "real Rotation2d"
  assumes unit: "Cos robotAngle * Cos robotAngle + Sin robotAngle * Sin robotAngle = 1"
  shows "dx (FromFieldRelativeSpeeds vx vy vtheta robotAngle)
           * dx (FromFieldRelativeSpeeds vx vy vtheta robotAngle)
         + dy (FromFieldRelativeSpeeds vx vy vtheta robotAngle)
           * dy (FromFieldRelativeSpeeds vx vy vtheta robotAngle)
         = vx * vx + vy * vy"
proof -
  have "(vx * Cos robotAngle + vy * Sin robotAngle) * (vx * Cos robotAngle + vy * Sin robotAngle)
          + (- vx * Sin robotAngle + vy * Cos robotAngle)
            * (- vx * Sin robotAngle + vy * Cos robotAngle)
        = (vx * vx + vy * vy)
            * (Cos robotAngle * Cos robotAngle + Sin robotAngle * Sin robotAngle)"
    by (simp add: algebra_simps)
  then show ?thesis
    by (simp add: FromFieldRelativeSpeeds_def unit)
qed

lemma linearity_exact:
  fixes c vx vy vtheta wx wy wtheta :: real and robotAngle :: "real Rotation2d"
  shows "FromFieldRelativeSpeeds (c * vx) (c * vy) (c * vtheta) robotAngle
           = \<lparr>dx = c * dx (FromFieldRelativeSpeeds vx vy vtheta robotAngle),
              dy = c * dy (FromFieldRelativeSpeeds vx vy vtheta robotAngle),
              dtheta = c * dtheta (FromFieldRelativeSpeeds vx vy vtheta robotAngle)\<rparr> \<and>
         FromFieldRelativeSpeeds (vx + wx) (vy + wy) (vtheta + wtheta) robotAngle
           = \<lparr>dx = dx (FromFieldRelativeSpeeds vx vy vtheta robotAngle)
                    + dx (FromFieldRelativeSpeeds wx wy wtheta robotAngle),
              dy = dy (FromFieldRelativeSpeeds vx vy vtheta robotAngle)
                    + dy (FromFieldRelativeSpeeds wx wy wtheta robotAngle),
              dtheta = dtheta (FromFieldRelativeSpeeds vx vy vtheta robotAngle)
                    + dtheta (FromFieldRelativeSpeeds wx wy wtheta robotAngle)\<rparr> \<and>
         FromFieldRelativeSpeeds 0 0 0 robotAngle = \<lparr>dx = 0, dy = 0, dtheta = 0\<rparr>"
  by (simp add: FromFieldRelativeSpeeds_def algebra_simps)

lemma composition_exact:
  fixes vx vy vtheta :: real and a b :: "real Rotation2d"
  shows "FromFieldRelativeSpeeds
           (dx (FromFieldRelativeSpeeds vx vy vtheta a))
           (dy (FromFieldRelativeSpeeds vx vy vtheta a))
           (dtheta (FromFieldRelativeSpeeds vx vy vtheta a)) b
         = FromFieldRelativeSpeeds vx vy vtheta
             \<lparr>Cos = Cos a * Cos b - Sin a * Sin b,
              Sin = Sin a * Cos b + Cos a * Sin b\<rparr>"
  by (simp add: FromFieldRelativeSpeeds_def algebra_simps)

end
